theory Spec2Isabelle
  imports Complex_Main
begin

section \<open>Data model (src/unnamed/part_000, src/components/LoginScreen.tsx)\<close>

text \<open>
  JavaScript numbers that hold money are modelled as exact rationals: the comparisons,
  additions, subtractions and \<open>Math.max\<close> of the source are the exact ones (IEEE rounding and
  NaN are not modelled). A timestamp is the time value of a JavaScript \<open>Date\<close>, in
  milliseconds; the ISO strings the source stores are the images of these time values under
  \<open>toISOString\<close> and \<open>new Date(_)\<close>.
\<close>

type_synonym uid = string
type_synonym timestamp = int

datatype tx_type = credit | debit

record Transaction =
  tx_uid :: uid
  tx_type :: tx_type
  amount :: rat
  description :: string
  timestamp :: timestamp
  partyName :: string
  category :: string

record Card =
  cardNumber :: string
  creditLimit :: rat
  creditBalance :: rat
  statementBalance :: rat
  minimumPayment :: rat
  paymentDueDate :: timestamp
  card_transactions :: "Transaction list"

datatype loan_status = Active | PaidOff

record Loan =
  loan_id :: string
  loanAmount :: rat
  monthlyPayment :: rat
  remainingBalance :: rat
  status :: loan_status
  loan_paymentDueDate :: timestamp

text \<open>
  A document of the \<open>users\<close> collection, and the \<open>User\<close> object the client keeps in
  \<open>currentUser\<close>: the document's fields together with the document id and the cards and loans
  loaded from the sub-collections (\<open>loadUserAndData\<close>).
\<close>

record user_doc =
  name :: string
  username :: string
  balance :: rat
  savingsAccountNumber :: string
  email :: string
  phone :: string

record User = user_doc +
  uid :: uid
  cards :: "Card list"
  loans :: "Loan list"

section \<open>The ledger store\<close>

text \<open>
  The \<open>users\<close> collection is a list of (document id, document) pairs in the order in which the
  store returns documents to a query; the sub-collections \<open>users/{uid}/cards\<close> and
  \<open>users/{uid}/loans\<close> are maps keyed by owner and document id, and \<open>transactions\<close> is the
  top-level collection in order of insertion.
\<close>

record store =
  users :: "(uid \<times> user_doc) list"
  card_docs :: "uid \<times> string \<rightharpoonup> Card"
  loan_docs :: "uid \<times> string \<rightharpoonup> Loan"
  transactions :: "Transaction list"

text \<open>\<open>usersRef.where(field, "==", v).get()\<close>: the matching documents, in store order.\<close>

definition where_eq :: "(user_doc \<Rightarrow> string) \<Rightarrow> string \<Rightarrow> (uid \<times> user_doc) list \<Rightarrow> (uid \<times> user_doc) list" where
  "where_eq field v docs = filter (\<lambda>d. field (snd d) = v) docs"

text \<open>\<open>db.collection("users").doc(u).get()\<close>.\<close>

definition get_user :: "store \<Rightarrow> uid \<Rightarrow> user_doc option" where
  "get_user s u = map_of (users s) u"

text \<open>
  The writes a transaction callback issues. Each is an \<open>update\<close> of some fields of one
  document; as in the store's client library, an \<open>update\<close> of a document that does not exist
  fails, and then the whole transaction fails and nothing is written.
\<close>

datatype store_write =
    UpdateBalance uid rat
  | UpdateCardBalances uid string rat rat
  | UpdateRemainingBalance uid string rat
  | UpdateLoanStatus uid string loan_status

fun apply_write :: "store \<Rightarrow> store_write \<Rightarrow> store option" where
  "apply_write s (UpdateBalance u b) =
     (case get_user s u of
        None \<Rightarrow> None
      | Some _ \<Rightarrow> Some (s\<lparr>users := map (\<lambda>d. if fst d = u then (fst d, (snd d)\<lparr>balance := b\<rparr>) else d) (users s)\<rparr>))"
| "apply_write s (UpdateCardBalances u n cb sb) =
     (case card_docs s (u, n) of
        None \<Rightarrow> None
      | Some c \<Rightarrow> Some (s\<lparr>card_docs := (card_docs s)((u, n) \<mapsto> c\<lparr>creditBalance := cb, statementBalance := sb\<rparr>)\<rparr>))"
| "apply_write s (UpdateRemainingBalance u i r) =
     (case loan_docs s (u, i) of
        None \<Rightarrow> None
      | Some loan \<Rightarrow> Some (s\<lparr>loan_docs := (loan_docs s)((u, i) \<mapsto> loan\<lparr>remainingBalance := r\<rparr>)\<rparr>))"
| "apply_write s (UpdateLoanStatus u i st) =
     (case loan_docs s (u, i) of
        None \<Rightarrow> None
      | Some loan \<Rightarrow> Some (s\<lparr>loan_docs := (loan_docs s)((u, i) \<mapsto> loan\<lparr>status := st\<rparr>)\<rparr>))"

fun commit :: "store \<Rightarrow> store_write list \<Rightarrow> store option" where
  "commit s [] = Some s"
| "commit s (w # ws) = (case apply_write s w of None \<Rightarrow> None | Some s' \<Rightarrow> commit s' ws)"

text \<open>
  The messages of the operations. Each constructor stands for one message template of the
  source, its arguments being the values the template interpolates.
\<close>

datatype message =
    NotLoggedIn                   \<comment> \<open>\<open>Error: You are not logged in.\<close>\<close>
  | AmountMustBePositive          \<comment> \<open>\<open>Error: Payment amount must be positive.\<close>\<close>
  | ErrorInsufficientFunds        \<comment> \<open>\<open>Error: Insufficient funds.\<close>\<close>
  | ContactNotFound string        \<comment> \<open>\<open>Error: Contact or account "..." not found.\<close>\<close>
  | CannotSendToYourself          \<comment> \<open>\<open>Error: Cannot send money to yourself.\<close>\<close>
  | InsufficientFunds             \<comment> \<open>the thrown \<open>Insufficient funds.\<close>\<close>
  | UserNotFound                  \<comment> \<open>the thrown \<open>User not found.\<close>\<close>
  | CardNotFound string           \<comment> \<open>the thrown \<open>Card ending in ... not found.\<close>\<close>
  | LoanNotFound string           \<comment> \<open>the thrown \<open>Loan with ID ... not found.\<close>\<close>
  | ValidAmountRequired           \<comment> \<open>the thrown \<open>A valid payment amount is required.\<close>\<close>
  | StoreError                    \<comment> \<open>the message of an error thrown by the store itself\<close>
  | SentTo rat string             \<comment> \<open>\<open>Success! You sent ... to ... .\<close>\<close>
  | PaidCard rat string           \<comment> \<open>\<open>Successfully paid ... towards your card ending in ... .\<close>\<close>
  | PaidLoan rat string           \<comment> \<open>\<open>Successfully paid ... towards your loan (...).\<close>\<close>
  | PaidOffLoan string            \<comment> \<open>\<open>Successfully paid off your loan (...). Congratulations!\<close>\<close>
  | ExtensionRefused              \<comment> \<open>\<open>We're sorry, but we were unable to process a payment extension ...\<close>\<close>
  | ExtensionCardNotFound string  \<comment> \<open>\<open>Error: Card ending in ... not found.\<close>\<close>
  | ExtensionLoanNotFound string  \<comment> \<open>\<open>Error: Loan with ID ... not found.\<close>\<close>
  | ExtendedTo timestamp          \<comment> \<open>\<open>Success! Your payment due date has been extended to ... .\<close>\<close>

record op_result =
  success :: bool
  message :: message

text \<open>
  \<open>db.runTransaction(callback)\<close>: the callback reads the store and either throws or issues its
  writes, which are committed together or not at all.
\<close>

definition runTransaction :: "store \<Rightarrow> (store \<Rightarrow> message + store_write list \<times> 'a) \<Rightarrow> message + store \<times> 'a" where
  "runTransaction s callback =
     (case callback s of
        Inl e \<Rightarrow> Inl e
      | Inr (ws, x) \<Rightarrow> (case commit s ws of None \<Rightarrow> Inl StoreError | Some s' \<Rightarrow> Inr (s', x)))"

section \<open>transferMoney (src/components/LoginScreen.tsx, lines 535-590)\<close>

text \<open>ASCII \<open>toLowerCase\<close>.\<close>

definition lower_char :: "char \<Rightarrow> char" where
  "lower_char c = (let n = (of_char c :: nat) in if 65 \<le> n \<and> n \<le> 90 then char_of (n + 32) else c)"

definition toLowerCase :: "string \<Rightarrow> string" where
  "toLowerCase s = map lower_char s"

text \<open>
  The five queries \<open>q1\<close> .. \<open>q5\<close> and \<open>results.flatMap(snap => snap.docs)[0]\<close>: the first
  document of the concatenated results, \<open>None\<close> for \<open>undefined\<close>.
\<close>

definition recipientDoc :: "(uid \<times> user_doc) list \<Rightarrow> string \<Rightarrow> (uid \<times> user_doc) option" where
  "recipientDoc usersRef recipientIdentifier =
     (let q1 = where_eq name recipientIdentifier usersRef;
          q2 = where_eq savingsAccountNumber recipientIdentifier usersRef;
          q3 = where_eq email recipientIdentifier usersRef;
          q4 = where_eq phone recipientIdentifier usersRef;
          q5 = where_eq username (toLowerCase recipientIdentifier) usersRef
      in case concat [q1, q2, q3, q4, q5] of [] \<Rightarrow> None | d # _ \<Rightarrow> Some d)"

text \<open>The callback of the transaction of \<open>transferMoney\<close>.\<close>

definition transfer_callback :: "uid \<Rightarrow> uid \<times> user_doc \<Rightarrow> rat \<Rightarrow> store \<Rightarrow> message + store_write list \<times> unit" where
  "transfer_callback sender recipient amt s =
     (case get_user s sender of
        None \<Rightarrow> Inl InsufficientFunds
      | Some senderDoc \<Rightarrow>
          if balance senderDoc < amt then Inl InsufficientFunds
          else Inr ([UpdateBalance sender (balance senderDoc - amt),
                     UpdateBalance (fst recipient) (balance (snd recipient) + amt)], ()))"

text \<open>
  \<open>transferMoney\<close>. \<open>currentUser\<close> is the client's cached user. The queries that resolve the
  recipient run before the transaction is opened, so the store they see (\<open>queried\<close>) and the
  store the transaction runs on (\<open>live\<close>) are two arguments; in a run that no other client
  interleaves with they are the same store. \<open>now\<close> is the clock read after the transaction.
  The result is the returned object, the store afterwards and the new \<open>currentUser\<close>. The
  two \<open>add\<close> calls on the \<open>transactions\<close> collection are taken to succeed.
\<close>

definition transferMoney ::
  "User option \<Rightarrow> store \<Rightarrow> store \<Rightarrow> string \<Rightarrow> rat \<Rightarrow> timestamp \<Rightarrow> op_result \<times> store \<times> User option" where
  "transferMoney currentUser queried live recipientIdentifier amt now =
     (case currentUser of
        None \<Rightarrow> (\<lparr>success = False, message = NotLoggedIn\<rparr>, live, currentUser)
      | Some cu \<Rightarrow>
          if amt \<le> 0 then (\<lparr>success = False, message = AmountMustBePositive\<rparr>, live, currentUser)
          else if balance cu < amt then (\<lparr>success = False, message = ErrorInsufficientFunds\<rparr>, live, currentUser)
          else
            (case recipientDoc (users queried) recipientIdentifier of
               None \<Rightarrow> (\<lparr>success = False, message = ContactNotFound recipientIdentifier\<rparr>, live, currentUser)
             | Some recipient \<Rightarrow>
                 if fst recipient = uid cu then (\<lparr>success = False, message = CannotSendToYourself\<rparr>, live, currentUser)
                 else
                   (case runTransaction live (transfer_callback (uid cu) recipient amt) of
                      Inl e \<Rightarrow> (\<lparr>success = False, message = e\<rparr>, live, currentUser)
                    | Inr (s', _) \<Rightarrow>
                        let t1 = \<lparr>tx_uid = uid cu, tx_type = debit, amount = amt,
                                  description = ''Payment to '' @ name (snd recipient), timestamp = now,
                                  partyName = name (snd recipient), category = ''Transfers''\<rparr>;
                            t2 = \<lparr>tx_uid = fst recipient, tx_type = credit, amount = amt,
                                  description = ''Payment from '' @ name cu, timestamp = now,
                                  partyName = name cu, category = ''Transfers''\<rparr>
                        in (\<lparr>success = True, message = SentTo amt (name (snd recipient))\<rparr>,
                            s'\<lparr>transactions := transactions s' @ [t1, t2]\<rparr>,
                            Some (cu\<lparr>balance := balance cu - amt\<rparr>)))))"

section \<open>makeAccountPayment (src/components/LoginScreen.tsx, lines 673-745)\<close>

datatype account_type = CardAccount | LoanAccount

datatype payment_type = Minimum | Statement | Full | Custom

text \<open>\<open>s.slice(-4)\<close>: the last four characters, the whole string when it is shorter.\<close>

definition slice_last4 :: "string \<Rightarrow> string" where
  "slice_last4 s = drop (length s - 4) s"

text \<open>\<open>customAmount || 0\<close>: \<open>undefined\<close> and \<open>0\<close> both give \<open>0\<close>.\<close>

definition or_zero :: "rat option \<Rightarrow> rat" where
  "or_zero customAmount = (case customAmount of None \<Rightarrow> 0 | Some a \<Rightarrow> a)"

text \<open>
  The callback of the transaction of \<open>makeAccountPayment\<close>. The user's document is read from
  the store inside the transaction; the card or the loan is the one held in \<open>currentUser\<close>.
  The callback returns its writes and the message it has assigned.
\<close>

definition payment_callback ::
  "User \<Rightarrow> string \<Rightarrow> account_type \<Rightarrow> payment_type \<Rightarrow> rat option \<Rightarrow> store \<Rightarrow> message + store_write list \<times> message" where
  "payment_callback cu accountId accountType paymentType customAmount s =
     (case get_user s (uid cu) of
        None \<Rightarrow> Inl UserNotFound
      | Some userData \<Rightarrow>
          (case accountType of
             CardAccount \<Rightarrow>
               (case find (\<lambda>c. slice_last4 (cardNumber c) = accountId) (cards cu) of
                  None \<Rightarrow> Inl (CardNotFound accountId)
                | Some theCard \<Rightarrow>
                    let paymentAmount =
                          (case paymentType of
                             Minimum \<Rightarrow> minimumPayment theCard
                           | Statement \<Rightarrow> statementBalance theCard
                           | Full \<Rightarrow> creditBalance theCard
                           | Custom \<Rightarrow> or_zero customAmount)
                    in if paymentAmount \<le> 0 then Inl ValidAmountRequired
                       else if balance userData < paymentAmount then Inl InsufficientFunds
                       else Inr ([UpdateBalance (uid cu) (balance userData - paymentAmount),
                                  UpdateCardBalances (uid cu) (cardNumber theCard)
                                    (max 0 (creditBalance theCard - paymentAmount))
                                    (max 0 (statementBalance theCard - paymentAmount))],
                                 PaidCard paymentAmount accountId))
           | LoanAccount \<Rightarrow>
               (case find (\<lambda>l. loan_id l = accountId) (loans cu) of
                  None \<Rightarrow> Inl (LoanNotFound accountId)
                | Some theLoan \<Rightarrow>
                    let requested =
                          (case paymentType of
                             Minimum \<Rightarrow> monthlyPayment theLoan
                           | Full \<Rightarrow> remainingBalance theLoan
                           | Custom \<Rightarrow> or_zero customAmount
                           | Statement \<Rightarrow> monthlyPayment theLoan)
                    in if requested \<le> 0 then Inl ValidAmountRequired
                       else
                         let paymentAmount =
                               (if requested > remainingBalance theLoan then remainingBalance theLoan else requested)
                         in if balance userData < paymentAmount then Inl InsufficientFunds
                            else
                              let newRemainingBalance = remainingBalance theLoan - paymentAmount
                              in Inr ([UpdateBalance (uid cu) (balance userData - paymentAmount),
                                       UpdateRemainingBalance (uid cu) (loan_id theLoan) newRemainingBalance]
                                      @ (if newRemainingBalance \<le> 0
                                         then [UpdateLoanStatus (uid cu) (loan_id theLoan) PaidOff] else []),
                                      if newRemainingBalance \<le> 0 then PaidOffLoan accountId
                                      else PaidLoan paymentAmount accountId))))"

text \<open>
  \<open>makeAccountPayment\<close>. Like \<open>requestPaymentExtension\<close>, and unlike \<open>transferMoney\<close>, \<open>addCardToUser\<close>
  and \<open>addLoanToUser\<close>, it does not call \<open>setCurrentUser\<close>: the \<open>currentUser\<close> of the session, with
  its cards and loans, is after the call what it was before.
\<close>

definition makeAccountPayment ::
  "User option \<Rightarrow> store \<Rightarrow> string \<Rightarrow> account_type \<Rightarrow> payment_type \<Rightarrow> rat option \<Rightarrow> op_result \<times> store" where
  "makeAccountPayment currentUser s accountId accountType paymentType customAmount =
     (case currentUser of
        None \<Rightarrow> (\<lparr>success = False, message = NotLoggedIn\<rparr>, s)
      | Some cu \<Rightarrow>
          (case runTransaction s (payment_callback cu accountId accountType paymentType customAmount) of
             Inl e \<Rightarrow> (\<lparr>success = False, message = e\<rparr>, s)
           | Inr (s', m) \<Rightarrow> (\<lparr>success = True, message = m\<rparr>, s')))"

section \<open>requestPaymentExtension (src/components/LoginScreen.tsx, lines 642-671)\<close>

text \<open>
  The client's time zone, as ECMAScript sees it: the offset of local time from UTC, in
  milliseconds, at a UTC time value (\<open>LocalTZA(t, true)\<close>) and at a local time value
  (\<open>LocalTZA(t, false)\<close>). With it come \<open>LocalTime\<close>, \<open>UTC\<close>, \<open>Day\<close>, \<open>TimeWithinDay\<close> and
  \<open>MakeDate\<close> of the language definition.
\<close>

record time_zone =
  LocalTZA_of_utc :: "timestamp \<Rightarrow> int"
  LocalTZA_of_local :: "timestamp \<Rightarrow> int"

definition msPerDay :: int where
  "msPerDay = 86400000"

definition LocalTime :: "time_zone \<Rightarrow> timestamp \<Rightarrow> timestamp" where
  "LocalTime zone t = t + LocalTZA_of_utc zone t"

definition UTC :: "time_zone \<Rightarrow> timestamp \<Rightarrow> timestamp" where
  "UTC zone t = t - LocalTZA_of_local zone t"

definition Day :: "timestamp \<Rightarrow> int" where
  "Day t = t div msPerDay"

definition TimeWithinDay :: "timestamp \<Rightarrow> int" where
  "TimeWithinDay t = t mod msPerDay"

definition MakeDate :: "int \<Rightarrow> int \<Rightarrow> timestamp" where
  "MakeDate day time = day * msPerDay + time"

text \<open>
  \<open>d.setDate(d.getDate() + n)\<close> on a \<open>Date\<close> with time value \<open>t\<close>, in local time as the language
  defines it: with \<open>local = LocalTime(t)\<close>, the new day is
  \<open>MakeDay(YearFromTime(local), MonthFromTime(local), DateFromTime(local) + n)\<close>, which is the day
  number of the first of that month plus \<open>DateFromTime(local) + n - 1\<close>, that is \<open>Day(local) + n\<close>;
  the time within the day is kept, and the result is converted back with \<open>UTC\<close>. Across a
  change of the offset (daylight saving time) the new time value is therefore not \<open>t\<close> plus
  \<open>n\<close> times 24 hours.
\<close>

definition setDate_getDate_plus :: "time_zone \<Rightarrow> timestamp \<Rightarrow> int \<Rightarrow> timestamp" where
  "setDate_getDate_plus zone t n =
     (let local = LocalTime zone t
      in UTC zone (MakeDate (Day local + n) (TimeWithinDay local)))"

record extension_result =
  ext_success :: bool
  ext_message :: message
  newDueDate :: "timestamp option"

datatype doc_ref = CardRef uid string | LoanRef uid string

text \<open>
  The first half of \<open>requestPaymentExtension\<close>: the account is looked up in \<open>currentUser\<close>,
  giving \<open>docRef\<close> and \<open>originalDueDate\<close>, or the message of the early return.
\<close>

definition extension_account :: "User \<Rightarrow> string \<Rightarrow> account_type \<Rightarrow> message + doc_ref \<times> timestamp" where
  "extension_account cu accountId type =
     (case type of
        CardAccount \<Rightarrow>
          (case find (\<lambda>c. slice_last4 (cardNumber c) = accountId) (cards cu) of
             None \<Rightarrow> Inl (ExtensionCardNotFound accountId)
           | Some theCard \<Rightarrow> Inr (CardRef (uid cu) (cardNumber theCard), paymentDueDate theCard))
      | LoanAccount \<Rightarrow>
          (case find (\<lambda>l. loan_id l = accountId) (loans cu) of
             None \<Rightarrow> Inl (ExtensionLoanNotFound accountId)
           | Some theLoan \<Rightarrow> Inr (LoanRef (uid cu) (loan_id theLoan), loan_paymentDueDate theLoan)))"

text \<open>\<open>docRef.update({ paymentDueDate: ... })\<close>, which fails when the document does not exist.\<close>

fun update_paymentDueDate :: "store \<Rightarrow> doc_ref \<Rightarrow> timestamp \<Rightarrow> store option" where
  "update_paymentDueDate s (CardRef u n) d =
     (case card_docs s (u, n) of
        None \<Rightarrow> None
      | Some c \<Rightarrow> Some (s\<lparr>card_docs := (card_docs s)((u, n) \<mapsto> c\<lparr>paymentDueDate := d\<rparr>)\<rparr>))"
| "update_paymentDueDate s (LoanRef u i) d =
     (case loan_docs s (u, i) of
        None \<Rightarrow> None
      | Some l \<Rightarrow> Some (s\<lparr>loan_docs := (loan_docs s)((u, i) \<mapsto> l\<lparr>loan_paymentDueDate := d\<rparr>)\<rparr>))"

text \<open>The due date a card's or a loan's document holds in the store.\<close>

fun stored_paymentDueDate :: "store \<Rightarrow> doc_ref \<Rightarrow> timestamp option" where
  "stored_paymentDueDate s (CardRef u n) = map_option paymentDueDate (card_docs s (u, n))"
| "stored_paymentDueDate s (LoanRef u i) = map_option loan_paymentDueDate (loan_docs s (u, i))"

text \<open>
  \<open>requestPaymentExtension\<close>. \<open>zone\<close> is the client's time zone and \<open>random\<close> the value of
  \<open>Math.random()\<close>. The update of the document is not inside a \<open>try\<close>: when it fails, the promise
  is rejected, which is the result \<open>None\<close>. The function does not read the clock, and it does
  not call \<open>setCurrentUser\<close>: the \<open>currentUser\<close> of the session is after the call what it was
  before.
\<close>

definition requestPaymentExtension ::
  "time_zone \<Rightarrow> User option \<Rightarrow> rat \<Rightarrow> store \<Rightarrow> string \<Rightarrow> account_type \<Rightarrow>
   extension_result option \<times> store" where
  "requestPaymentExtension zone currentUser random s accountId type =
     (case currentUser of
        None \<Rightarrow> (Some \<lparr>ext_success = False, ext_message = NotLoggedIn, newDueDate = None\<rparr>, s)
      | Some cu \<Rightarrow>
          if random < 1 / 10
          then (Some \<lparr>ext_success = False, ext_message = ExtensionRefused, newDueDate = None\<rparr>, s)
          else
            (case extension_account cu accountId type of
               Inl m \<Rightarrow> (Some \<lparr>ext_success = False, ext_message = m, newDueDate = None\<rparr>, s)
             | Inr (docRef, originalDueDate) \<Rightarrow>
                 let newDate = setDate_getDate_plus zone originalDueDate 14
                 in (case update_paymentDueDate s docRef newDate of
                       None \<Rightarrow> (None, s)
                     | Some s' \<Rightarrow>
                         (Some \<lparr>ext_success = True, ext_message = ExtendedTo newDate,
                                newDueDate = Some newDate\<rparr>, s'))))"

section \<open>The insights cache (src/components/LoginScreen.tsx, lines 342-384; src/services/geminiService.ts, lines 418-458)\<close>

text \<open>
  The analysis the model returns is a value of any type \<open>'d\<close>. \<open>generateContent\<close> stands for
  the batch call together with the parsing of its reply: \<open>None\<close> when either throws.
  \<open>getComprehensiveInsights\<close> returns its result and the list of the batch calls it has made,
  each recorded by the transactions it sent.
\<close>

record 'd CachedInsight =
  data :: 'd
  lastUpdated :: timestamp

definition getComprehensiveInsights ::
  "(Transaction list \<Rightarrow> 'd option) \<Rightarrow> Transaction list \<Rightarrow> 'd option \<times> Transaction list list" where
  "getComprehensiveInsights generateContent txs =
     (if length (filter (\<lambda>tx. tx_type tx = debit) txs) < 3 then (None, [])
      else (generateContent txs, [txs]))"

text \<open>
  The state \<open>loadOrGenerateInsights\<close> works on: the document \<open>insights/latest\<close> of the current
  user in the store, the client's \<open>insightsData\<close> and \<open>isInsightsLoading\<close>, and the batch calls
  made so far.
\<close>

record 'd insights_state =
  insights_doc :: "'d CachedInsight option"
  insightsData :: "'d CachedInsight option"
  isInsightsLoading :: bool
  ai_requests :: "Transaction list list"

text \<open>
  \<open>loadOrGenerateInsights\<close>. \<open>zone\<close> is the client's time zone and \<open>txs\<close> the client's
  \<open>transactions\<close> state; \<open>now\<close> and \<open>stamp\<close> are the two readings of the clock. Failures of the store are not modelled, so the \<open>catch\<close> block is
  not reached.
\<close>

definition loadOrGenerateInsights ::
  "(Transaction list \<Rightarrow> 'd option) \<Rightarrow> time_zone \<Rightarrow> User option \<Rightarrow> Transaction list \<Rightarrow>
   timestamp \<Rightarrow> timestamp \<Rightarrow> 'd insights_state \<Rightarrow> 'd CachedInsight option \<times> 'd insights_state" where
  "loadOrGenerateInsights generateContent zone currentUser txs now stamp st =
     (case currentUser of
        None \<Rightarrow> (None, st)
      | Some cu \<Rightarrow>
          if isInsightsLoading st then (None, st)
          else
            (case insights_doc st of
               Some cachedData \<Rightarrow>
                 (Some cachedData, st\<lparr>insightsData := Some cachedData, isInsightsLoading := False\<rparr>)
             | None \<Rightarrow>
                 let allUserTransactions =
                       filter (\<lambda>tx. tx_uid tx = uid cu) txs @ concat (map card_transactions (cards cu));
                     sixtyDaysAgo = setDate_getDate_plus zone now (- 60);
                     recentTransactions = filter (\<lambda>tx. timestamp tx \<ge> sixtyDaysAgo) allUserTransactions;
                     (newInsightsData, requests) = getComprehensiveInsights generateContent recentTransactions
                 in (case newInsightsData of
                       Some d \<Rightarrow>
                         let newCachedInsights = \<lparr>data = d, lastUpdated = stamp\<rparr>
                         in (Some newCachedInsights,
                             st\<lparr>insights_doc := Some newCachedInsights,
                                insightsData := Some newCachedInsights,
                                isInsightsLoading := False,
                                ai_requests := ai_requests st @ requests\<rparr>)
                     | None \<Rightarrow>
                         (None, st\<lparr>insightsData := None, isInsightsLoading := False,
                                   ai_requests := ai_requests st @ requests\<rparr>))))"

section \<open>The re-authentication gate (src/components/LoginScreen.tsx, lines 831-851)\<close>

text \<open>
  What \<open>navigator.credentials.get\<close> does when \<open>verifyCurrentUserWithPasskey\<close> awaits it: it
  resolves to an assertion or to \<open>null\<close>, or it throws an error of one of three kinds.
\<close>

datatype credential_result = Assertion | Null | NotAllowedError | AbortError | OtherError

text \<open>
  \<open>verifyCurrentUserWithPasskey\<close>: the boolean it resolves to and the toasts it shows. Without a
  current user, without passkey support or without a registered passkey the platform is not
  asked.
\<close>

definition verifyCurrentUserWithPasskey ::
  "bool \<Rightarrow> bool \<Rightarrow> string list \<Rightarrow> credential_result \<Rightarrow> bool \<times> string list" where
  "verifyCurrentUserWithPasskey hasCurrentUser isPasskeySupported passkeys platform =
     (if \<not> hasCurrentUser \<or> \<not> isPasskeySupported \<or> length passkeys = 0 then (False, [])
      else (case platform of
              Assertion \<Rightarrow> (True, [])
            | Null \<Rightarrow> (False, [])
            | NotAllowedError \<Rightarrow> (False, [])
            | AbortError \<Rightarrow> (False, [])
            | OtherError \<Rightarrow> (False, [''Passkey verification failed.''])))"

section \<open>The conversation turn (src/unnamed/part_001, lines 273-366)\<close>

record 'a FunctionCall =
  call_name :: "string option"
  args :: 'a

text \<open>
  The object handed back to the model for one call: an object literal with \<open>success\<close> and
  \<open>message\<close> built by \<open>handleSend\<close>, or whatever \<open>handleFunctionCall\<close> returned as
  \<open>resultForModel\<close>.
\<close>

datatype 'r tool_response = SuccessMessage bool string | ResultForModel 'r

record 'r functionResponse =
  response_name :: "string option"
  response :: "'r tool_response"

datatype 'r content = Prompt string | FunctionResponses "'r functionResponse list"

text \<open>
  What the iteration over the response stream yields: a chunk with its function calls (none
  when \<open>chunk.functionCalls\<close> is undefined) and its text (empty when there is none), or an error
  thrown by the stream.
\<close>

datatype 'a stream_item = Chunk "'a FunctionCall list" string | StreamError

datatype message_sender = SenderUser | SenderAi | SenderSystem

datatype message_text =
    Plain string
  | PasskeyConfirmationRequired "string option"
  | ActionCancelled
  | ChatError

record Message =
  msg_id :: nat
  sender :: message_sender
  msg_text :: message_text

text \<open>
  The calls \<open>handleSend\<close> makes to its collaborators, in the order in which it makes them: the
  opening of a stream for a message, the arrival of a chunk with its function calls, the end
  of a stream, the call of the gate \<open>verifyCurrentUserWithPasskey\<close> for the call at a position
  of the collected list, the call of \<open>handleFunctionCall\<close> for the call at a position, and its
  return. The positions are those of the loop over the collected calls, counted from 0.
\<close>

datatype ('a, 'r) event =
    StreamOpened "'r content"
  | ChunkArrived "'a FunctionCall list"
  | StreamEnded
  | Challenge nat
  | Dispatched nat "'a FunctionCall"
  | Completed nat

text \<open>
  The state of a turn: the chat messages and the counter \<open>messageId\<close>, \<open>isLoading\<close>, the toasts
  shown, the log of the calls made, and the world \<open>handleFunctionCall\<close> acts on (the bank).
\<close>

record ('a, 'r, 'w) turn =
  messages :: "Message list"
  messageId :: nat
  isLoading :: bool
  toasts :: "string list"
  events :: "('a, 'r) event list"
  world :: 'w

text \<open>
  The collaborators of \<open>handleSend\<close>. \<open>sendMessageStream\<close> gives the items the stream of a message
  yields; \<open>credentials_get i\<close> is the platform's answer to the challenge raised for the call at
  position \<open>i\<close>; \<open>handleFunctionCall\<close> returns the display message and the result for the model
  (\<open>None\<close> when it throws) and the world it leaves.
\<close>

record ('a, 'r, 'w) collaborators =
  hasCurrentUser :: bool
  hasChat :: bool
  isPasskeySupported :: bool
  passkeys :: "string list"
  sendMessageStream :: "'r content \<Rightarrow> 'a stream_item list"
  credentials_get :: "nat \<Rightarrow> credential_result"
  handleFunctionCall :: "'a FunctionCall \<Rightarrow> 'w \<Rightarrow> (string \<times> 'r tool_response) option \<times> 'w"

definition add_message :: "message_sender \<Rightarrow> message_text \<Rightarrow> ('a, 'r, 'w) turn \<Rightarrow> ('a, 'r, 'w) turn" where
  "add_message who txt st =
     st\<lparr>messages := messages st @ [\<lparr>msg_id = messageId st, sender = who, msg_text = txt\<rparr>],
        messageId := messageId st + 1\<rparr>"

definition log_event :: "('a, 'r) event \<Rightarrow> ('a, 'r, 'w) turn \<Rightarrow> ('a, 'r, 'w) turn" where
  "log_event e st = st\<lparr>events := events st @ [e]\<rparr>"

text \<open>
  The loop of \<open>streamAndHandle\<close> over the items of the stream, with \<open>accumulatedText\<close>,
  \<open>aiMessageId\<close> and \<open>collectedFunctionCalls\<close>. The result is the collected calls, or \<open>None\<close> when
  the stream throws.
\<close>

fun stream_loop ::
  "'a stream_item list \<Rightarrow> string \<Rightarrow> nat option \<Rightarrow> 'a FunctionCall list \<Rightarrow> ('a, 'r, 'w) turn \<Rightarrow>
   'a FunctionCall list option \<times> ('a, 'r, 'w) turn" where
  "stream_loop [] accumulatedText aiMessageId collected st = (Some collected, log_event StreamEnded st)"
| "stream_loop (StreamError # rest) accumulatedText aiMessageId collected st = (None, st)"
| "stream_loop (Chunk functionCalls chunkText # rest) accumulatedText aiMessageId collected st =
     (let st0 = log_event (ChunkArrived functionCalls) st;
          collected' = collected @ functionCalls
      in if chunkText \<noteq> []
         then
           let st1 = (case aiMessageId of None \<Rightarrow> add_message SenderAi (Plain []) st0 | Some _ \<Rightarrow> st0);
               theId = (case aiMessageId of None \<Rightarrow> messageId st0 | Some i \<Rightarrow> i);
               accumulatedText' = accumulatedText @ chunkText;
               st2 = st1\<lparr>messages :=
                       map (\<lambda>msg. if msg_id msg = theId then msg\<lparr>msg_text := Plain accumulatedText'\<rparr> else msg)
                         (messages st1)\<rparr>
           in stream_loop rest accumulatedText' (Some theId) collected' st2
         else stream_loop rest accumulatedText aiMessageId collected' st0)"

definition streamAndHandle ::
  "('a, 'r, 'w) collaborators \<Rightarrow> 'r content \<Rightarrow> ('a, 'r, 'w) turn \<Rightarrow>
   'a FunctionCall list option \<times> ('a, 'r, 'w) turn" where
  "streamAndHandle env messageContent st =
     stream_loop (sendMessageStream env messageContent) [] None [] (log_event (StreamOpened messageContent) st)"

definition sensitiveActions :: "string list" where
  "sensitiveActions = [''initiatePayment'', ''makeAccountPayment'', ''applyForCreditCard'',
     ''applyForLoan'', ''requestPaymentExtension'']"

text \<open>\<open>sensitiveActions.includes(call.name)\<close>; an undefined name is not included.\<close>

definition array_includes :: "string list \<Rightarrow> string option \<Rightarrow> bool" where
  "array_includes xs n = (case n of None \<Rightarrow> False | Some x \<Rightarrow> x \<in> set xs)"

text \<open>
  The part of the loop body after the gate: the call of \<open>handleFunctionCall\<close>, the system
  message and the response part to push (\<open>None\<close> when \<open>handleFunctionCall\<close> throws).
\<close>

definition dispatch_call ::
  "('a, 'r, 'w) collaborators \<Rightarrow> nat \<Rightarrow> 'a FunctionCall \<Rightarrow> ('a, 'r, 'w) turn \<Rightarrow>
   'r functionResponse option \<times> ('a, 'r, 'w) turn" where
  "dispatch_call env i call st =
     (let st1 = log_event (Dispatched i call) st
      in case handleFunctionCall env call (world st1) of
           (None, w) \<Rightarrow> (None, st1\<lparr>world := w\<rparr>)
         | (Some (msg, resultForModel), w) \<Rightarrow>
             (Some \<lparr>response_name = call_name call, response = resultForModel\<rparr>,
              add_message SenderSystem (Plain msg) (log_event (Completed i) (st1\<lparr>world := w\<rparr>))))"

text \<open>
  One iteration of the loop over the collected calls, for the call at position \<open>i\<close>: the
  response part it pushes (\<open>None\<close> when it throws) and the state it leaves.
\<close>

definition process_call ::
  "('a, 'r, 'w) collaborators \<Rightarrow> nat \<Rightarrow> 'a FunctionCall \<Rightarrow> ('a, 'r, 'w) turn \<Rightarrow>
   'r functionResponse option \<times> ('a, 'r, 'w) turn" where
  "process_call env i call st =
     (if array_includes sensitiveActions (call_name call)
      then
        let st1 = add_message SenderSystem (PasskeyConfirmationRequired (call_name call)) st;
            (isVerified, shown) =
              verifyCurrentUserWithPasskey (hasCurrentUser env) (isPasskeySupported env) (passkeys env)
                (credentials_get env i);
            st2 = (log_event (Challenge i) st1)\<lparr>toasts := toasts st1 @ shown\<rparr>
        in if \<not> isVerified
           then (Some \<lparr>response_name = call_name call,
                       response = SuccessMessage False ''User cancelled the action with their passkey.''\<rparr>,
                 add_message SenderSystem ActionCancelled st2)
           else dispatch_call env i call st2
      else dispatch_call env i call st)"

text \<open>The loop \<open>for (const call of functionCalls)\<close>, with \<open>functionResponseParts\<close>.\<close>

fun process_calls ::
  "('a, 'r, 'w) collaborators \<Rightarrow> nat \<Rightarrow> 'a FunctionCall list \<Rightarrow> 'r functionResponse list \<Rightarrow> ('a, 'r, 'w) turn \<Rightarrow>
   'r functionResponse list option \<times> ('a, 'r, 'w) turn" where
  "process_calls env i [] functionResponseParts st = (Some functionResponseParts, st)"
| "process_calls env i (call # rest) functionResponseParts st =
     (case process_call env i call st of
        (None, st') \<Rightarrow> (None, st')
      | (Some part, st') \<Rightarrow> process_calls env (Suc i) rest (functionResponseParts @ [part]) st')"

text \<open>\<open>!prompt.trim()\<close> for ASCII white space.\<close>

definition blank :: "string \<Rightarrow> bool" where
  "blank prompt = (filter (\<lambda>c. c \<noteq> CHR '' '' \<and> c \<noteq> CHR 0x09 \<and> c \<noteq> CHR 0x0A \<and> c \<noteq> CHR 0x0D) prompt = [])"

text \<open>
  \<open>handleSend\<close>. The \<open>catch\<close> block adds the error message; the \<open>finally\<close> block resets \<open>isLoading\<close>
  (the restart of the voice recognition is left out).
\<close>

definition catch_finally :: "('a, 'r, 'w) turn \<Rightarrow> ('a, 'r, 'w) turn" where
  "catch_finally st = (add_message SenderSystem ChatError st)\<lparr>isLoading := False\<rparr>"

definition handleSend :: "('a, 'r, 'w) collaborators \<Rightarrow> string \<Rightarrow> ('a, 'r, 'w) turn \<Rightarrow> ('a, 'r, 'w) turn" where
  "handleSend env prompt st =
     (if blank prompt \<or> isLoading st \<or> \<not> hasCurrentUser env \<or> \<not> hasChat env then st
      else
        let st1 = (add_message SenderUser (Plain prompt) st)\<lparr>isLoading := True\<rparr>
        in case streamAndHandle env (Prompt prompt) st1 of
             (None, st2) \<Rightarrow> catch_finally st2
           | (Some functionCalls, st2) \<Rightarrow>
               if length functionCalls > 0
               then
                 (case process_calls env 0 functionCalls [] st2 of
                    (None, st3) \<Rightarrow> catch_finally st3
                  | (Some functionResponseParts, st3) \<Rightarrow>
                      (case streamAndHandle env (FunctionResponses functionResponseParts) st3 of
                         (None, st4) \<Rightarrow> catch_finally st4
                       | (Some _, st4) \<Rightarrow> st4\<lparr>isLoading := False\<rparr>))
               else st2\<lparr>isLoading := False\<rparr>)"

text \<open>
  The outcome of the gate for the call at position \<open>i\<close>, and whether the loop cancels a call
  at that position: its name is sensitive and the gate returns false.
\<close>

definition isVerified :: "('a, 'r, 'w) collaborators \<Rightarrow> nat \<Rightarrow> bool" where
  "isVerified env i =
     fst (verifyCurrentUserWithPasskey (hasCurrentUser env) (isPasskeySupported env) (passkeys env)
            (credentials_get env i))"

definition denied :: "('a, 'r, 'w) collaborators \<Rightarrow> nat \<Rightarrow> 'a FunctionCall \<Rightarrow> bool" where
  "denied env i call = (array_includes sensitiveActions (call_name call) \<and> \<not> isVerified env i)"

text \<open>The function calls of the chunks a stream yields before it throws, if it does.\<close>

fun chunk_calls :: "'a stream_item list \<Rightarrow> 'a FunctionCall list list" where
  "chunk_calls [] = []"
| "chunk_calls (StreamError # rest) = []"
| "chunk_calls (Chunk functionCalls chunkText # rest) = functionCalls # chunk_calls rest"



text \<open>
  The log the loop over the collected calls writes, computed from the collaborators alone:
  for each call the challenge if its name is sensitive, then, unless the call is cancelled,
  the call of \<open>handleFunctionCall\<close> and its return; the loop ends where the handler throws.
\<close>

fun calls_events ::
  "('a, 'r, 'w) collaborators \<Rightarrow> nat \<Rightarrow> 'a FunctionCall list \<Rightarrow> 'w \<Rightarrow> ('a, 'r) event list" where
  "calls_events env i [] w = []"
| "calls_events env i (c # cs) w =
     (if array_includes sensitiveActions (call_name c) then [Challenge i] else []) @
     (if denied env i c then calls_events env (Suc i) cs w
      else Dispatched i c #
           (case handleFunctionCall env c w of
              (None, w') \<Rightarrow> []
            | (Some _, w') \<Rightarrow> Completed i # calls_events env (Suc i) cs w'))"

text \<open>The balance a user's document holds in the store, if the document exists.\<close>

definition balance_of :: "store \<Rightarrow> uid \<Rightarrow> rat option" where
  "balance_of s u = map_option balance (get_user s u)"


subsection \<open>Concrete stores\<close>

definition alice_doc :: user_doc where
  "alice_doc = \<lparr>name = ''Alice'', username = ''alice'', balance = 1000,
     savingsAccountNumber = ''1111'', email = ''alice@nova.test'', phone = ''555-0001''\<rparr>"

definition bob_doc :: user_doc where
  "bob_doc = \<lparr>name = ''Bob'', username = ''bob'', balance = 50,
     savingsAccountNumber = ''2222'', email = ''bob@nova.test'', phone = ''555-0002''\<rparr>"

definition alice :: User where
  "alice = user_doc.extend alice_doc (User.fields ''uA'' [] [])"

definition bank :: store where
  "bank = \<lparr>users = [(''uA'', alice_doc), (''uB'', bob_doc)], card_docs = Map.empty,
     loan_docs = Map.empty, transactions = []\<rparr>"

text \<open>The same bank after another client has credited 20 to Bob.\<close>

definition bank_later :: store where
  "bank_later = bank\<lparr>users := [(''uA'', alice_doc), (''uB'', bob_doc\<lparr>balance := 70\<rparr>)]\<rparr>"




text \<open>A user with one card and one loan, and the store that holds their documents.\<close>

definition visa :: Card where
  "visa = \<lparr>cardNumber = ''4000123412345678'', creditLimit = 5000, creditBalance = 500,
     statementBalance = 450, minimumPayment = 25, paymentDueDate = 1000, card_transactions = []\<rparr>"

definition car_loan :: Loan where
  "car_loan = \<lparr>loan_id = ''loan-uD-1'', loanAmount = 5000, monthlyPayment = 20,
     remainingBalance = 100, status = Active, loan_paymentDueDate = 2000\<rparr>"

definition dave_doc :: user_doc where
  "dave_doc = \<lparr>name = ''Dave'', username = ''dave'', balance = 1000,
     savingsAccountNumber = ''5555'', email = ''dave@nova.test'', phone = ''555-0005''\<rparr>"

definition dave :: User where
  "dave = user_doc.extend dave_doc (User.fields ''uD'' [visa] [car_loan])"

definition dave_bank :: store where
  "dave_bank = \<lparr>users = [(''uD'', dave_doc)],
     card_docs = [(''uD'', ''4000123412345678'') \<mapsto> visa],
     loan_docs = [(''uD'', ''loan-uD-1'') \<mapsto> car_loan], transactions = []\<rparr>"

text \<open>
  Two time zones: UTC, and a zone five hours behind UTC that moves to four hours behind on
  2025-03-09 at 07:00 UTC (02:00 local time, the next local hour being skipped).
\<close>

definition utc_zone :: time_zone where
  "utc_zone = \<lparr>LocalTZA_of_utc = (\<lambda>t. 0), LocalTZA_of_local = (\<lambda>t. 0)\<rparr>"

definition eastern_zone :: time_zone where
  "eastern_zone =
     \<lparr>LocalTZA_of_utc = (\<lambda>t. if t < 1741503600000 then - 18000000 else - 14400000),
      LocalTZA_of_local = (\<lambda>t. if t < 1741489200000 then - 18000000 else - 14400000)\<rparr>"

text \<open>
  Dave's bank after one operation of his session: after a custom payment of 60 on his loan,
  after a full payment of his card, and after an extension of his card's due date. The
  session's \<open>currentUser\<close> is still \<open>dave\<close>.
\<close>

definition dave_bank_loan_paid_60 :: store where
  "dave_bank_loan_paid_60 =
     snd (makeAccountPayment (Some dave) dave_bank ''loan-uD-1'' LoanAccount Custom (Some 60))"

definition dave_bank_card_paid :: store where
  "dave_bank_card_paid = snd (makeAccountPayment (Some dave) dave_bank ''5678'' CardAccount Full None)"

definition dave_bank_extended :: store where
  "dave_bank_extended =
     snd (requestPaymentExtension utc_zone (Some dave) (1 / 2) dave_bank ''5678'' CardAccount)"

text \<open>
  Dave's savings history with two debits and one credit (his card has no transactions), an
  insights state with no cached document and one with a cached document.
\<close>

definition dave_history :: "Transaction list" where
  "dave_history =
     [\<lparr>tx_uid = ''uD'', tx_type = debit, amount = 12, description = ''Payment to Bob'',
        timestamp = 5000000000, partyName = ''Bob'', category = ''Transfers''\<rparr>,
      \<lparr>tx_uid = ''uD'', tx_type = credit, amount = 40, description = ''Payment from Alice'',
        timestamp = 5000000100, partyName = ''Alice'', category = ''Transfers''\<rparr>,
      \<lparr>tx_uid = ''uD'', tx_type = debit, amount = 7, description = ''Payment to Alice'',
        timestamp = 5000000200, partyName = ''Alice'', category = ''Transfers''\<rparr>]"

definition no_insights :: "string insights_state" where
  "no_insights = \<lparr>insights_doc = None, insightsData = None, isInsightsLoading = False, ai_requests = []\<rparr>"

definition with_insights :: "string insights_state" where
  "with_insights = \<lparr>insights_doc = Some \<lparr>data = ''analysis'', lastUpdated = 4000000000\<rparr>,
     insightsData = None, isInsightsLoading = False, ai_requests = []\<rparr>"

text \<open>
  A turn in which the model asks for three calls in two chunks: a balance query, a payment and
  a payment extension. The user refuses the passkey challenge of the payment.
\<close>

definition balance_call :: "unit FunctionCall" where
  "balance_call = \<lparr>call_name = Some ''getAccountBalance'', args = ()\<rparr>"

definition payment_call :: "unit FunctionCall" where
  "payment_call = \<lparr>call_name = Some ''initiatePayment'', args = ()\<rparr>"

definition extension_call :: "unit FunctionCall" where
  "extension_call = \<lparr>call_name = Some ''requestPaymentExtension'', args = ()\<rparr>"

definition demo_env :: "(unit, string, nat) collaborators" where
  "demo_env = \<lparr>hasCurrentUser = True, hasChat = True, isPasskeySupported = True,
     passkeys = [''credential-1''],
     sendMessageStream = (\<lambda>m. case m of
        Prompt _ \<Rightarrow> [Chunk [] ''One moment. '', Chunk [balance_call, payment_call] [],
                      Chunk [extension_call] ''Working on it.'']
      | FunctionResponses _ \<Rightarrow> [Chunk [] ''Done.'']),
     credentials_get = (\<lambda>i. if i = 1 then NotAllowedError else Assertion),
     handleFunctionCall = (\<lambda>c w. (Some (''ok'', ResultForModel ''result''), Suc w))\<rparr>"

definition demo_turn :: "(unit, string, nat) turn" where
  "demo_turn = \<lparr>messages = [], messageId = 0, isLoading = False, toasts = [], events = [], world = 0\<rparr>"

section \<open>Properties of transferMoney\<close>

lemma map_of_set_balance:
  "map_of (map (\<lambda>d. if fst d = u then (fst d, (snd d)\<lparr>balance := b\<rparr>) else d) xs) v =
     (if v = u then map_option (\<lambda>d. d\<lparr>balance := b\<rparr>) (map_of xs v) else map_of xs v)"
  by (induction xs) auto

lemma get_user_UpdateBalance:
  "apply_write s (UpdateBalance u b) = Some s' \<Longrightarrow>
   get_user s' v = (if v = u then map_option (\<lambda>d. d\<lparr>balance := b\<rparr>) (get_user s v) else get_user s v)"
  by (auto simp: get_user_def map_of_set_balance split: option.splits)

lemma transactions_UpdateBalance:
  "apply_write s (UpdateBalance u b) = Some s' \<Longrightarrow> transactions s' = transactions s"
  by (auto split: option.splits)

lemma hd_concat_mem:
  "(case xs of [] \<Rightarrow> None | d # _ \<Rightarrow> Some d) = Some r \<Longrightarrow> r \<in> set xs"
  by (cases xs) auto

lemma recipientDoc_mem: "recipientDoc us i = Some r \<Longrightarrow> r \<in> set us"
proof -
  assume a: "recipientDoc us i = Some r"
  let ?c = "concat [where_eq name i us, where_eq savingsAccountNumber i us, where_eq email i us,
                    where_eq phone i us, where_eq username (toLowerCase i) us]"
  from a have "r \<in> set ?c"
    unfolding recipientDoc_def Let_def by (rule hd_concat_mem)
  then show ?thesis by (auto simp: where_eq_def)
qed

lemma transferMoney_success:
  assumes "transferMoney currentUser q l i amt now = (r, s', cu')" and "success r"
  obtains cu recipient s1 where
    "currentUser = Some cu" "0 < amt" "amt \<le> balance cu"
    "recipientDoc (users q) i = Some recipient" "fst recipient \<noteq> uid cu"
    "runTransaction l (transfer_callback (uid cu) recipient amt) = Inr (s1, ())"
    "s' = s1\<lparr>transactions := transactions s1 @
        [\<lparr>tx_uid = uid cu, tx_type = debit, amount = amt,
          description = ''Payment to '' @ name (snd recipient), timestamp = now,
          partyName = name (snd recipient), category = ''Transfers''\<rparr>,
         \<lparr>tx_uid = fst recipient, tx_type = credit, amount = amt,
          description = ''Payment from '' @ name cu, timestamp = now,
          partyName = name cu, category = ''Transfers''\<rparr>]\<rparr>"
  using assms unfolding transferMoney_def Let_def
  by (auto split: option.splits if_splits sum.splits prod.splits)

lemma transfer_transaction:
  assumes "runTransaction l (transfer_callback a rcp amt) = Inr (s1, x)"
  obtains sd s0 where "get_user l a = Some sd" "amt \<le> balance sd"
    "apply_write l (UpdateBalance a (balance sd - amt)) = Some s0"
    "apply_write s0 (UpdateBalance (fst rcp) (balance (snd rcp) + amt)) = Some s1"
  using assms unfolding runTransaction_def transfer_callback_def
  by (auto split: option.splits if_splits sum.splits prod.splits)

lemmas transfer_eval =
  transferMoney_def recipientDoc_def where_eq_def toLowerCase_def lower_char_def
  runTransaction_def transfer_callback_def get_user_def balance_of_def
  alice_def alice_doc_def bob_doc_def bank_def
  user_doc.extend_def User.fields_def

text \<open>
  What a transfer does when no other client interleaves with it (the queries and the
  transaction see the same store, whose document ids are distinct) and it returns success:
  the sender's stored balance is the one before minus the amount, the recipient's is the one
  before plus the amount, and the \<open>transactions\<close> collection has grown by exactly two records,
  a debit of the sender and a credit of the recipient, both of the amount and both stamped
  with the one clock reading.
\<close>

lemma transferMoney_conservation:
  assumes d: "distinct (map fst (users s))"
    and t: "transferMoney currentUser s s recipientIdentifier amt now = (r, s', cu')"
    and ok: "success r"
  shows "\<exists>sender recipient b_sender b_recipient t1 t2.
           map_option uid currentUser = Some sender \<and>
           map_option fst (recipientDoc (users s) recipientIdentifier) = Some recipient \<and>
           recipient \<noteq> sender \<and>
           balance_of s sender = Some b_sender \<and>
           balance_of s recipient = Some b_recipient \<and>
           balance_of s' sender = Some (b_sender - amt) \<and>
           balance_of s' recipient = Some (b_recipient + amt) \<and>
           transactions s' = transactions s @ [t1, t2] \<and>
           tx_uid t1 = sender \<and> tx_type t1 = debit \<and> amount t1 = amt \<and>
           tx_uid t2 = recipient \<and> tx_type t2 = credit \<and> amount t2 = amt \<and>
           timestamp t1 = now \<and> timestamp t2 = now"
proof -
  from t ok obtain cu rcp s1 where
    cu: "currentUser = Some cu" and rcp: "recipientDoc (users s) recipientIdentifier = Some rcp"
    and ne: "fst rcp \<noteq> uid cu"
    and tx: "runTransaction s (transfer_callback (uid cu) rcp amt) = Inr (s1, ())"
    and s': "s' = s1\<lparr>transactions := transactions s1 @
        [\<lparr>tx_uid = uid cu, tx_type = debit, amount = amt,
          description = ''Payment to '' @ name (snd rcp), timestamp = now,
          partyName = name (snd rcp), category = ''Transfers''\<rparr>,
         \<lparr>tx_uid = fst rcp, tx_type = credit, amount = amt,
          description = ''Payment from '' @ name cu, timestamp = now,
          partyName = name cu, category = ''Transfers''\<rparr>]\<rparr>"
    by (rule transferMoney_success)
  from tx obtain sd s0 where sd: "get_user s (uid cu) = Some sd"
    and w1: "apply_write s (UpdateBalance (uid cu) (balance sd - amt)) = Some s0"
    and w2: "apply_write s0 (UpdateBalance (fst rcp) (balance (snd rcp) + amt)) = Some s1"
    by (rule transfer_transaction)
  from rcp have "rcp \<in> set (users s)" by (rule recipientDoc_mem)
  then have "(fst rcp, snd rcp) \<in> set (users s)" by simp
  with d have rd: "get_user s (fst rcp) = Some (snd rcp)"
    unfolding get_user_def by (rule map_of_is_SomeI)
  have g1: "get_user s1 (uid cu) = Some (sd\<lparr>balance := balance sd - amt\<rparr>)"
    using get_user_UpdateBalance[OF w2, of "uid cu"] get_user_UpdateBalance[OF w1, of "uid cu"] ne sd
    by simp
  have g2: "get_user s1 (fst rcp) = Some ((snd rcp)\<lparr>balance := balance (snd rcp) + amt\<rparr>)"
    using get_user_UpdateBalance[OF w2, of "fst rcp"] get_user_UpdateBalance[OF w1, of "fst rcp"] ne rd
    by simp
  have u: "get_user s' v = get_user s1 v" for v
    by (simp add: s' get_user_def)
  have tr: "transactions s1 = transactions s"
    using transactions_UpdateBalance[OF w1] transactions_UpdateBalance[OF w2] by simp
  let ?t1 = "\<lparr>tx_uid = uid cu, tx_type = debit, amount = amt,
          description = ''Payment to '' @ name (snd rcp), timestamp = now,
          partyName = name (snd rcp), category = ''Transfers''\<rparr>"
  let ?t2 = "\<lparr>tx_uid = fst rcp, tx_type = credit, amount = amt,
          description = ''Payment from '' @ name cu, timestamp = now,
          partyName = name cu, category = ''Transfers''\<rparr>"
  have "map_option uid currentUser = Some (uid cu) \<and>
        map_option fst (recipientDoc (users s) recipientIdentifier) = Some (fst rcp) \<and>
        fst rcp \<noteq> uid cu \<and>
        balance_of s (uid cu) = Some (balance sd) \<and>
        balance_of s (fst rcp) = Some (balance (snd rcp)) \<and>
        balance_of s' (uid cu) = Some (balance sd - amt) \<and>
        balance_of s' (fst rcp) = Some (balance (snd rcp) + amt) \<and>
        transactions s' = transactions s @ [?t1, ?t2] \<and>
        tx_uid ?t1 = uid cu \<and> tx_type ?t1 = debit \<and> amount ?t1 = amt \<and>
        tx_uid ?t2 = fst rcp \<and> tx_type ?t2 = credit \<and> amount ?t2 = amt \<and>
        timestamp ?t1 = now \<and> timestamp ?t2 = now"
    using cu rcp ne sd rd g1 g2 u tr s' by (simp add: balance_of_def)
  then show ?thesis by blast
qed

lemma transferMoney_conservation_example:
  "distinct (map fst (users bank)) \<and>
   success (fst (transferMoney (Some alice) bank bank ''2222'' 200 7)) \<and>
   balance_of (fst (snd (transferMoney (Some alice) bank bank ''2222'' 200 7))) ''uA'' = Some 800 \<and>
   balance_of (fst (snd (transferMoney (Some alice) bank bank ''2222'' 200 7))) ''uB'' = Some 250 \<and>
   length (transactions (fst (snd (transferMoney (Some alice) bank bank ''2222'' 200 7)))) = 2"
proof -
  obtain r s' cu' where e: "transferMoney (Some alice) bank bank ''2222'' 200 7 = (r, s', cu')"
    by (rule prod_cases3)
  have d: "distinct (map fst (users bank))" by (simp add: bank_def)
  have "success (fst (transferMoney (Some alice) bank bank ''2222'' 200 7))"
    by (simp add: transfer_eval)
  with e have ok: "success r" by simp
  have snd_: "recipientDoc (users bank) ''2222'' = Some (''uB'', bob_doc)"
    by (simp add: transfer_eval)
  have b: "balance_of bank ''uA'' = Some 1000" "balance_of bank ''uB'' = Some 50"
    "transactions bank = []" "uid alice = ''uA''"
    by (simp_all add: transfer_eval)
  from transferMoney_conservation[OF d e ok] snd_ b
  have "balance_of s' ''uA'' = Some 800 \<and> balance_of s' ''uB'' = Some 250 \<and>
        length (transactions s') = 2"
    by auto
  with d ok e show ?thesis by simp
qed



text \<open>
  C2. Every successful transfer should leave the sender with the balance before minus the
  amount and the recipient with the balance before plus the amount, and create exactly two
  records. The code does not: when another client has credited 20 to Bob between the lookup
  of the recipient and the transaction, Alice's transfer of 200 succeeds, Alice goes from
  1000 to 800 and two records are added, but Bob, who holds 70 when the transaction runs,
  holds 250 afterwards and not 270.
\<close>

theorem transferMoney_interleaved_recipient_not_conserved:
  "success (fst (transferMoney (Some alice) bank bank_later ''2222'' 200 7)) \<and>
   balance_of bank_later ''uA'' = Some 1000 \<and>
   balance_of (fst (snd (transferMoney (Some alice) bank bank_later ''2222'' 200 7))) ''uA'' = Some 800 \<and>
   balance_of bank_later ''uB'' = Some 70 \<and>
   balance_of (fst (snd (transferMoney (Some alice) bank bank_later ''2222'' 200 7))) ''uB'' = Some 250 \<and>
   (250 :: rat) \<noteq> 70 + 200 \<and>
   length (transactions (fst (snd (transferMoney (Some alice) bank bank_later ''2222'' 200 7))))
     = length (transactions bank_later) + 2"
  by (simp add: transfer_eval bank_later_def)

text \<open>
  C4. The recipient's balance is not read inside the transaction: the value written is the
  balance of the document the earlier query returned plus the amount. When Bob's balance has
  moved from 50 to 70 between the query and the transaction, a transfer of 200 writes 250.
\<close>

theorem transferMoney_recipient_balance_not_reread:
  "balance_of bank ''uB'' = Some 50 \<and> balance_of bank_later ''uB'' = Some 70 \<and>
   success (fst (transferMoney (Some alice) bank bank_later ''2222'' 200 7)) \<and>
   balance_of (fst (snd (transferMoney (Some alice) bank bank_later ''2222'' 200 7))) ''uB'' = Some 250"
  by (simp add: transfer_eval bank_later_def)

section \<open>Properties of makeAccountPayment\<close>

lemma makeAccountPayment_success:
  assumes "makeAccountPayment currentUser s accountId accountType paymentType customAmount = (r, s')"
    and "success r"
  obtains cu ws m where "currentUser = Some cu"
    "payment_callback cu accountId accountType paymentType customAmount s = Inr (ws, m)"
    "commit s ws = Some s'"
  using assms unfolding makeAccountPayment_def runTransaction_def
  by (auto split: option.splits sum.splits prod.splits)

lemma find_loan_id: "find (\<lambda>l. loan_id l = accountId) ls = Some loan \<Longrightarrow> loan_id loan = accountId"
  by (auto simp: find_Some_iff)

lemma loan_callback:
  assumes "payment_callback cu accountId LoanAccount paymentType customAmount s = Inr (ws, m)"
  obtains loan userData requested where
    "find (\<lambda>l. loan_id l = accountId) (loans cu) = Some loan"
    "get_user s (uid cu) = Some userData"
    "requested = (case paymentType of Custom \<Rightarrow> or_zero customAmount | Full \<Rightarrow> remainingBalance loan | _ \<Rightarrow> monthlyPayment loan)"
    "0 < requested" "min requested (remainingBalance loan) \<le> balance userData"
    "ws = [UpdateBalance (uid cu) (balance userData - min requested (remainingBalance loan)),
           UpdateRemainingBalance (uid cu) accountId (remainingBalance loan - min requested (remainingBalance loan))]
          @ (if remainingBalance loan - min requested (remainingBalance loan) \<le> 0
             then [UpdateLoanStatus (uid cu) accountId PaidOff] else [])"
proof -
  from assms obtain loan userData where
    f: "find (\<lambda>l. loan_id l = accountId) (loans cu) = Some loan" and u: "get_user s (uid cu) = Some userData"
    by (auto simp: payment_callback_def split: option.splits)
  have i: "loan_id loan = accountId" using f by (rule find_loan_id)
  let ?req = "case paymentType of Custom \<Rightarrow> or_zero customAmount | Full \<Rightarrow> remainingBalance loan | _ \<Rightarrow> monthlyPayment loan"
  have m: "(if ?req > remainingBalance loan then remainingBalance loan else ?req) = min ?req (remainingBalance loan)"
    by (simp add: min_def)
  from assms f u i have "0 < ?req \<and> min ?req (remainingBalance loan) \<le> balance userData \<and>
    ws = [UpdateBalance (uid cu) (balance userData - min ?req (remainingBalance loan)),
           UpdateRemainingBalance (uid cu) accountId (remainingBalance loan - min ?req (remainingBalance loan))]
          @ (if remainingBalance loan - min ?req (remainingBalance loan) \<le> 0
             then [UpdateLoanStatus (uid cu) accountId PaidOff] else [])"
    unfolding payment_callback_def Let_def m[symmetric]
    by (cases paymentType) (auto split: if_splits)
  with f u that show ?thesis by blast
qed

lemma commit_loan_writes:
  assumes "commit s ([UpdateBalance u b, UpdateRemainingBalance u i r]
             @ (if r \<le> 0 then [UpdateLoanStatus u i PaidOff] else [])) = Some s'"
  shows "balance_of s' u = Some b"
    and "map_option remainingBalance (loan_docs s' (u, i)) = Some r"
    and "r \<le> 0 \<Longrightarrow> map_option status (loan_docs s' (u, i)) = Some PaidOff"
proof -
  from assms obtain s1 s2 where
    w1: "apply_write s (UpdateBalance u b) = Some s1" and
    w2: "apply_write s1 (UpdateRemainingBalance u i r) = Some s2" and
    w3: "commit s2 (if r \<le> 0 then [UpdateLoanStatus u i PaidOff] else []) = Some s'"
    by (auto split: option.splits)
  from w1 have "get_user s u \<noteq> None" by (auto split: option.splits)
  with get_user_UpdateBalance[OF w1, of u] have g1: "map_option balance (get_user s1 u) = Some b"
    by auto
  from w2 have g2: "get_user s2 = get_user s1" "map_option remainingBalance (loan_docs s2 (u, i)) = Some r"
    by (auto simp: get_user_def fun_eq_iff split: option.splits)
  from w3 have g3: "get_user s' = get_user s2"
    "map_option remainingBalance (loan_docs s' (u, i)) = map_option remainingBalance (loan_docs s2 (u, i))"
    "r \<le> 0 \<Longrightarrow> map_option status (loan_docs s' (u, i)) = Some PaidOff"
    by (auto simp: get_user_def fun_eq_iff split: option.splits if_splits)
  show "balance_of s' u = Some b" using g1 g2 g3 by (simp add: balance_of_def)
  show "map_option remainingBalance (loan_docs s' (u, i)) = Some r" using g2 g3 by simp
  show "r \<le> 0 \<Longrightarrow> map_option status (loan_docs s' (u, i)) = Some PaidOff" using g3 by simp
qed

lemma card_callback:
  assumes "payment_callback cu accountId CardAccount paymentType customAmount s = Inr (ws, m)"
  obtains theCard userData paymentAmount where
    "find (\<lambda>c. slice_last4 (cardNumber c) = accountId) (cards cu) = Some theCard"
    "get_user s (uid cu) = Some userData"
    "paymentAmount = (case paymentType of Minimum \<Rightarrow> minimumPayment theCard
        | Statement \<Rightarrow> statementBalance theCard | Full \<Rightarrow> creditBalance theCard
        | Custom \<Rightarrow> or_zero customAmount)"
    "0 < paymentAmount" "paymentAmount \<le> balance userData"
    "ws = [UpdateBalance (uid cu) (balance userData - paymentAmount),
           UpdateCardBalances (uid cu) (cardNumber theCard)
             (max 0 (creditBalance theCard - paymentAmount))
             (max 0 (statementBalance theCard - paymentAmount))]"
proof -
  from assms obtain theCard userData where
    f: "find (\<lambda>c. slice_last4 (cardNumber c) = accountId) (cards cu) = Some theCard"
    and u: "get_user s (uid cu) = Some userData"
    by (auto simp: payment_callback_def split: option.splits)
  let ?p = "case paymentType of Minimum \<Rightarrow> minimumPayment theCard
        | Statement \<Rightarrow> statementBalance theCard | Full \<Rightarrow> creditBalance theCard
        | Custom \<Rightarrow> or_zero customAmount"
  from assms f u have "0 < ?p \<and> ?p \<le> balance userData \<and>
    ws = [UpdateBalance (uid cu) (balance userData - ?p),
           UpdateCardBalances (uid cu) (cardNumber theCard)
             (max 0 (creditBalance theCard - ?p)) (max 0 (statementBalance theCard - ?p))]"
    unfolding payment_callback_def Let_def
    by (cases paymentType) (auto split: if_splits)
  with f u that show ?thesis by blast
qed

lemma commit_card_writes:
  assumes "commit s [UpdateBalance u b, UpdateCardBalances u n cb sb] = Some s'"
  shows "balance_of s' u = Some b"
    and "map_option creditBalance (card_docs s' (u, n)) = Some cb"
    and "map_option statementBalance (card_docs s' (u, n)) = Some sb"
proof -
  from assms obtain s1 where
    w1: "apply_write s (UpdateBalance u b) = Some s1" and
    w2: "apply_write s1 (UpdateCardBalances u n cb sb) = Some s'"
    by (auto split: option.splits)
  from w1 have "get_user s u \<noteq> None" by (auto split: option.splits)
  with get_user_UpdateBalance[OF w1, of u] have g1: "map_option balance (get_user s1 u) = Some b"
    by auto
  from w2 have g2: "get_user s' = get_user s1"
    "map_option creditBalance (card_docs s' (u, n)) = Some cb"
    "map_option statementBalance (card_docs s' (u, n)) = Some sb"
    by (auto simp: get_user_def fun_eq_iff split: option.splits)
  show "balance_of s' u = Some b" using g1 g2 by (simp add: balance_of_def)
  show "map_option creditBalance (card_docs s' (u, n)) = Some cb" using g2 by simp
  show "map_option statementBalance (card_docs s' (u, n)) = Some sb" using g2 by simp
qed

lemmas payment_eval =
  makeAccountPayment_def runTransaction_def payment_callback_def get_user_def slice_last4_def
  or_zero_def balance_of_def dave_def dave_doc_def dave_bank_def visa_def car_loan_def
  user_doc.extend_def User.fields_def

text \<open>
  What a successful payment on a loan does, in terms of the copy of the loan that
  \<open>currentUser\<close> holds: the amount paid is the requested amount clamped to that copy's
  remaining balance, the remaining balance written is the copy's minus the amount paid and
  is not negative, and when it is 0 the write of the status \<open>PaidOff\<close> belongs to the same
  transaction as the writes of the cash balance and of the remaining balance.
\<close>

lemma makeAccountPayment_loan_clamp_payoff:
  assumes t: "makeAccountPayment currentUser s accountId LoanAccount paymentType customAmount = (r, s')"
    and ok: "success r"
  shows "\<exists>cu theLoan userData ws m paid.
           currentUser = Some cu \<and>
           find (\<lambda>l. loan_id l = accountId) (loans cu) = Some theLoan \<and>
           get_user s (uid cu) = Some userData \<and>
           payment_callback cu accountId LoanAccount paymentType customAmount s = Inr (ws, m) \<and>
           commit s ws = Some s' \<and>
           paid \<le> remainingBalance theLoan \<and>
           (paymentType = Custom \<and> remainingBalance theLoan < or_zero customAmount
              \<longrightarrow> paid = remainingBalance theLoan) \<and>
           (paymentType = Custom \<and> or_zero customAmount \<le> remainingBalance theLoan
              \<longrightarrow> paid = or_zero customAmount) \<and>
           UpdateBalance (uid cu) (balance userData - paid) \<in> set ws \<and>
           UpdateRemainingBalance (uid cu) accountId (remainingBalance theLoan - paid) \<in> set ws \<and>
           0 \<le> remainingBalance theLoan - paid \<and>
           (remainingBalance theLoan - paid = 0 \<longrightarrow> UpdateLoanStatus (uid cu) accountId PaidOff \<in> set ws) \<and>
           balance_of s' (uid cu) = Some (balance userData - paid) \<and>
           map_option remainingBalance (loan_docs s' (uid cu, accountId)) = Some (remainingBalance theLoan - paid) \<and>
           (remainingBalance theLoan - paid = 0
              \<longrightarrow> map_option status (loan_docs s' (uid cu, accountId)) = Some PaidOff)"
proof -
  from t ok obtain cu ws m where cu: "currentUser = Some cu"
    and cb: "payment_callback cu accountId LoanAccount paymentType customAmount s = Inr (ws, m)"
    and c: "commit s ws = Some s'"
    by (rule makeAccountPayment_success)
  from cb obtain theLoan userData requested where
    f: "find (\<lambda>l. loan_id l = accountId) (loans cu) = Some theLoan" and
    u: "get_user s (uid cu) = Some userData" and
    rq: "requested = (case paymentType of Custom \<Rightarrow> or_zero customAmount | Full \<Rightarrow> remainingBalance theLoan | _ \<Rightarrow> monthlyPayment theLoan)" and
    ws: "ws = [UpdateBalance (uid cu) (balance userData - min requested (remainingBalance theLoan)),
           UpdateRemainingBalance (uid cu) accountId (remainingBalance theLoan - min requested (remainingBalance theLoan))]
          @ (if remainingBalance theLoan - min requested (remainingBalance theLoan) \<le> 0
             then [UpdateLoanStatus (uid cu) accountId PaidOff] else [])"
    by (rule loan_callback)
  let ?paid = "min requested (remainingBalance theLoan)"
  note e = commit_loan_writes[OF c[unfolded ws]]
  have "currentUser = Some cu \<and>
           find (\<lambda>l. loan_id l = accountId) (loans cu) = Some theLoan \<and>
           get_user s (uid cu) = Some userData \<and>
           payment_callback cu accountId LoanAccount paymentType customAmount s = Inr (ws, m) \<and>
           commit s ws = Some s' \<and>
           ?paid \<le> remainingBalance theLoan \<and>
           (paymentType = Custom \<and> remainingBalance theLoan < or_zero customAmount
              \<longrightarrow> ?paid = remainingBalance theLoan) \<and>
           (paymentType = Custom \<and> or_zero customAmount \<le> remainingBalance theLoan
              \<longrightarrow> ?paid = or_zero customAmount) \<and>
           UpdateBalance (uid cu) (balance userData - ?paid) \<in> set ws \<and>
           UpdateRemainingBalance (uid cu) accountId (remainingBalance theLoan - ?paid) \<in> set ws \<and>
           0 \<le> remainingBalance theLoan - ?paid \<and>
           (remainingBalance theLoan - ?paid = 0 \<longrightarrow> UpdateLoanStatus (uid cu) accountId PaidOff \<in> set ws) \<and>
           balance_of s' (uid cu) = Some (balance userData - ?paid) \<and>
           map_option remainingBalance (loan_docs s' (uid cu, accountId)) = Some (remainingBalance theLoan - ?paid) \<and>
           (remainingBalance theLoan - ?paid = 0
              \<longrightarrow> map_option status (loan_docs s' (uid cu, accountId)) = Some PaidOff)"
    using cu f u cb c e rq by (simp add: ws)
  then show ?thesis by blast
qed

lemma makeAccountPayment_loan_clamp_payoff_example:
  "success (fst (makeAccountPayment (Some dave) dave_bank ''loan-uD-1'' LoanAccount Custom (Some 150))) \<and>
   balance_of (snd (makeAccountPayment (Some dave) dave_bank ''loan-uD-1'' LoanAccount Custom (Some 150))) ''uD''
     = Some 900 \<and>
   map_option remainingBalance
     (loan_docs (snd (makeAccountPayment (Some dave) dave_bank ''loan-uD-1'' LoanAccount Custom (Some 150)))
        (''uD'', ''loan-uD-1'')) = Some 0 \<and>
   map_option status
     (loan_docs (snd (makeAccountPayment (Some dave) dave_bank ''loan-uD-1'' LoanAccount Custom (Some 150)))
        (''uD'', ''loan-uD-1'')) = Some PaidOff"
proof -
  obtain r s' where
    e: "makeAccountPayment (Some dave) dave_bank ''loan-uD-1'' LoanAccount Custom (Some 150) = (r, s')"
    by (rule prod.exhaust)
  have "success (fst (makeAccountPayment (Some dave) dave_bank ''loan-uD-1'' LoanAccount Custom (Some 150)))"
    by (simp add: payment_eval)
  with e have ok: "success r" by simp
  have k: "find (\<lambda>l. loan_id l = ''loan-uD-1'') (loans dave) = Some car_loan"
    "get_user dave_bank (uid dave) = Some dave_doc" "uid dave = ''uD''"
    "remainingBalance car_loan = 100" "balance dave_doc = 1000" "or_zero (Some 150) = 150"
    by (simp_all add: payment_eval)
  from makeAccountPayment_loan_clamp_payoff[OF e ok] k
  have "balance_of s' ''uD'' = Some 900 \<and>
        map_option remainingBalance (loan_docs s' (''uD'', ''loan-uD-1'')) = Some 0 \<and>
        map_option status (loan_docs s' (''uD'', ''loan-uD-1'')) = Some PaidOff"
    by auto
  with ok e show ?thesis by simp
qed

text \<open>
  C6. When a payment on a card returns success, the credit balance and the statement balance
  written (and then held by the card's document) are not negative, whatever the amount; and
  a payment of type \<open>Full\<close> writes a credit balance of exactly 0, and a statement balance of
  exactly 0 for a card whose statement balance does not exceed its credit balance. That is
  the invariant of the data model: \<open>generateMockCard\<close> establishes it, and a payment keeps
  it, as the last conjunct says.
\<close>

theorem makeAccountPayment_card_floor:
  assumes t: "makeAccountPayment currentUser s accountId CardAccount paymentType customAmount = (r, s')"
    and ok: "success r"
  shows "\<exists>cu theCard ws m cb sb.
           currentUser = Some cu \<and>
           find (\<lambda>c. slice_last4 (cardNumber c) = accountId) (cards cu) = Some theCard \<and>
           payment_callback cu accountId CardAccount paymentType customAmount s = Inr (ws, m) \<and>
           commit s ws = Some s' \<and>
           UpdateCardBalances (uid cu) (cardNumber theCard) cb sb \<in> set ws \<and>
           map_option creditBalance (card_docs s' (uid cu, cardNumber theCard)) = Some cb \<and>
           map_option statementBalance (card_docs s' (uid cu, cardNumber theCard)) = Some sb \<and>
           0 \<le> cb \<and> 0 \<le> sb \<and>
           (paymentType = Full \<longrightarrow> cb = 0) \<and>
           (paymentType = Full \<and> statementBalance theCard \<le> creditBalance theCard \<longrightarrow> sb = 0) \<and>
           (statementBalance theCard \<le> creditBalance theCard \<longrightarrow> sb \<le> cb)"
proof -
  from t ok obtain cu ws m where cu: "currentUser = Some cu"
    and cb: "payment_callback cu accountId CardAccount paymentType customAmount s = Inr (ws, m)"
    and c: "commit s ws = Some s'"
    by (rule makeAccountPayment_success)
  from cb obtain theCard userData p where
    f: "find (\<lambda>c. slice_last4 (cardNumber c) = accountId) (cards cu) = Some theCard" and
    u: "get_user s (uid cu) = Some userData" and
    p: "p = (case paymentType of Minimum \<Rightarrow> minimumPayment theCard
        | Statement \<Rightarrow> statementBalance theCard | Full \<Rightarrow> creditBalance theCard
        | Custom \<Rightarrow> or_zero customAmount)" and
    pos: "0 < p" "p \<le> balance userData" and
    ws: "ws = [UpdateBalance (uid cu) (balance userData - p),
           UpdateCardBalances (uid cu) (cardNumber theCard)
             (max 0 (creditBalance theCard - p)) (max 0 (statementBalance theCard - p))]"
    by (rule card_callback)
  note e = commit_card_writes[OF c[unfolded ws]]
  let ?cb = "max 0 (creditBalance theCard - p)" and ?sb = "max 0 (statementBalance theCard - p)"
  have "currentUser = Some cu \<and>
           find (\<lambda>c. slice_last4 (cardNumber c) = accountId) (cards cu) = Some theCard \<and>
           payment_callback cu accountId CardAccount paymentType customAmount s = Inr (ws, m) \<and>
           commit s ws = Some s' \<and>
           UpdateCardBalances (uid cu) (cardNumber theCard) ?cb ?sb \<in> set ws \<and>
           map_option creditBalance (card_docs s' (uid cu, cardNumber theCard)) = Some ?cb \<and>
           map_option statementBalance (card_docs s' (uid cu, cardNumber theCard)) = Some ?sb \<and>
           0 \<le> ?cb \<and> 0 \<le> ?sb \<and>
           (paymentType = Full \<longrightarrow> ?cb = 0) \<and>
           (paymentType = Full \<and> statementBalance theCard \<le> creditBalance theCard \<longrightarrow> ?sb = 0) \<and>
           (statementBalance theCard \<le> creditBalance theCard \<longrightarrow> ?sb \<le> ?cb)"
    using cu f cb c e p by (auto simp: ws)
  then show ?thesis by blast
qed

theorem makeAccountPayment_card_floor_witness:
  "success (fst (makeAccountPayment (Some dave) dave_bank ''5678'' CardAccount Full None)) \<and>
   statementBalance visa \<le> creditBalance visa \<and>
   map_option creditBalance
     (card_docs (snd (makeAccountPayment (Some dave) dave_bank ''5678'' CardAccount Full None))
        (''uD'', ''4000123412345678'')) = Some 0 \<and>
   map_option statementBalance
     (card_docs (snd (makeAccountPayment (Some dave) dave_bank ''5678'' CardAccount Full None))
        (''uD'', ''4000123412345678'')) = Some 0"
proof -
  obtain r s' where
    e: "makeAccountPayment (Some dave) dave_bank ''5678'' CardAccount Full None = (r, s')"
    by (rule prod.exhaust)
  have "success (fst (makeAccountPayment (Some dave) dave_bank ''5678'' CardAccount Full None))"
    by (simp add: payment_eval)
  with e have ok: "success r" by simp
  have k: "find (\<lambda>c. slice_last4 (cardNumber c) = ''5678'') (cards dave) = Some visa"
    "uid dave = ''uD''" "cardNumber visa = ''4000123412345678''"
    "statementBalance visa \<le> creditBalance visa"
    by (simp_all add: payment_eval)
  from makeAccountPayment_card_floor[OF e ok] k
  have "map_option creditBalance (card_docs s' (''uD'', ''4000123412345678'')) = Some 0 \<and>
        map_option statementBalance (card_docs s' (''uD'', ''4000123412345678'')) = Some 0"
    by auto
  with ok e k show ?thesis by simp
qed

text \<open>
  What a successful custom payment on a card does when it exceeds the credit balance of the
  copy of the card that \<open>currentUser\<close> holds: the whole custom amount is taken from the user's
  cash balance, and the card's credit balance and statement balance are written as 0 (for a
  copy whose statement balance does not exceed its credit balance).
\<close>

lemma makeAccountPayment_card_overpayment:
  assumes t: "makeAccountPayment (Some cu) s accountId CardAccount Custom (Some a) = (r, s')"
    and ok: "success r"
    and f: "find (\<lambda>c. slice_last4 (cardNumber c) = accountId) (cards cu) = Some theCard"
    and over: "creditBalance theCard < a"
    and inv: "statementBalance theCard \<le> creditBalance theCard"
  shows "\<exists>userData cash_after cb_after.
           get_user s (uid cu) = Some userData \<and>
           balance_of s' (uid cu) = Some cash_after \<and>
           cash_after = balance userData - a \<and>
           map_option creditBalance (card_docs s' (uid cu, cardNumber theCard)) = Some cb_after \<and>
           cb_after = 0 \<and>
           map_option statementBalance (card_docs s' (uid cu, cardNumber theCard)) = Some 0 \<and>
           creditBalance theCard - cb_after < balance userData - cash_after"
proof -
  from t ok obtain cu' ws m where cu: "Some cu = Some cu'"
    and cb: "payment_callback cu' accountId CardAccount Custom (Some a) s = Inr (ws, m)"
    and c: "commit s ws = Some s'"
    by (rule makeAccountPayment_success)
  from cu have [simp]: "cu' = cu" by simp
  from cb obtain theCard' userData p where
    f': "find (\<lambda>c. slice_last4 (cardNumber c) = accountId) (cards cu') = Some theCard'" and
    u: "get_user s (uid cu') = Some userData" and
    p: "p = (case Custom of Minimum \<Rightarrow> minimumPayment theCard'
        | Statement \<Rightarrow> statementBalance theCard' | Full \<Rightarrow> creditBalance theCard'
        | Custom \<Rightarrow> or_zero (Some a))" and
    pos: "0 < p" "p \<le> balance userData" and
    ws: "ws = [UpdateBalance (uid cu') (balance userData - p),
           UpdateCardBalances (uid cu') (cardNumber theCard')
             (max 0 (creditBalance theCard' - p)) (max 0 (statementBalance theCard' - p))]"
    by (rule card_callback)
  from f f' have [simp]: "theCard' = theCard" by simp
  from p have pa: "p = a" by (simp add: or_zero_def)
  note e = commit_card_writes[OF c[unfolded ws]]
  have "get_user s (uid cu) = Some userData \<and>
           balance_of s' (uid cu) = Some (balance userData - a) \<and>
           map_option creditBalance (card_docs s' (uid cu, cardNumber theCard)) = Some 0 \<and>
           map_option statementBalance (card_docs s' (uid cu, cardNumber theCard)) = Some 0 \<and>
           creditBalance theCard - 0 < balance userData - (balance userData - a)"
    using u e over inv pa by simp
  then show ?thesis by blast
qed

lemma makeAccountPayment_card_overpayment_example:
  "success (fst (makeAccountPayment (Some dave) dave_bank ''5678'' CardAccount Custom (Some 600))) \<and>
   find (\<lambda>c. slice_last4 (cardNumber c) = ''5678'') (cards dave) = Some visa \<and>
   creditBalance visa < 600 \<and> statementBalance visa \<le> creditBalance visa \<and>
   balance_of dave_bank ''uD'' = Some 1000 \<and>
   balance_of (snd (makeAccountPayment (Some dave) dave_bank ''5678'' CardAccount Custom (Some 600))) ''uD''
     = Some 400 \<and>
   map_option creditBalance
     (card_docs (snd (makeAccountPayment (Some dave) dave_bank ''5678'' CardAccount Custom (Some 600)))
        (''uD'', ''4000123412345678'')) = Some 0 \<and>
   map_option statementBalance
     (card_docs (snd (makeAccountPayment (Some dave) dave_bank ''5678'' CardAccount Custom (Some 600)))
        (''uD'', ''4000123412345678'')) = Some 0"
proof -
  obtain r s' where
    e: "makeAccountPayment (Some dave) dave_bank ''5678'' CardAccount Custom (Some 600) = (r, s')"
    by (rule prod.exhaust)
  have "success (fst (makeAccountPayment (Some dave) dave_bank ''5678'' CardAccount Custom (Some 600)))"
    by (simp add: payment_eval)
  with e have ok: "success r" by simp
  have f: "find (\<lambda>c. slice_last4 (cardNumber c) = ''5678'') (cards dave) = Some visa"
    by (simp add: payment_eval)
  have over: "creditBalance visa < 600" and inv: "statementBalance visa \<le> creditBalance visa"
    by (simp_all add: visa_def)
  have k: "get_user dave_bank (uid dave) = Some dave_doc" "uid dave = ''uD''"
    "cardNumber visa = ''4000123412345678''" "balance dave_doc = 1000"
    "balance_of dave_bank ''uD'' = Some 1000"
    by (simp_all add: payment_eval)
  from makeAccountPayment_card_overpayment[OF e ok f over inv] k
  have "balance_of s' ''uD'' = Some 400 \<and>
        map_option creditBalance (card_docs s' (''uD'', ''4000123412345678'')) = Some 0 \<and>
        map_option statementBalance (card_docs s' (''uD'', ''4000123412345678'')) = Some 0"
    by auto
  with ok e f over inv k show ?thesis by simp
qed

text \<open>
  C5. A custom payment above the loan's remaining balance should be clamped to that balance.
  The code clamps against the copy of the loan in \<open>currentUser\<close>, which no payment refreshes.
  Dave's loan owes 100; he pays 60, and the stored loan owes 40 while his session's copy
  still says 100. A second custom payment of 100 then succeeds and takes 100 from his cash
  (940 to 840), not the 40 he owes; and a second custom payment of 30 instead writes a
  remaining balance of 70, above the 40 stored before it.
\<close>

theorem makeAccountPayment_loan_second_payment_not_clamped:
  "success (fst (makeAccountPayment (Some dave) dave_bank ''loan-uD-1'' LoanAccount Custom (Some 60))) \<and>
   map_option remainingBalance (loan_docs dave_bank_loan_paid_60 (''uD'', ''loan-uD-1'')) = Some 40 \<and>
   map_option remainingBalance (find (\<lambda>l. loan_id l = ''loan-uD-1'') (loans dave)) = Some 100 \<and>
   balance_of dave_bank_loan_paid_60 ''uD'' = Some 940 \<and>
   success (fst (makeAccountPayment (Some dave) dave_bank_loan_paid_60 ''loan-uD-1'' LoanAccount Custom (Some 100))) \<and>
   balance_of (snd (makeAccountPayment (Some dave) dave_bank_loan_paid_60 ''loan-uD-1'' LoanAccount Custom (Some 100)))
     ''uD'' = Some 840 \<and>
   success (fst (makeAccountPayment (Some dave) dave_bank_loan_paid_60 ''loan-uD-1'' LoanAccount Custom (Some 30))) \<and>
   map_option remainingBalance
     (loan_docs (snd (makeAccountPayment (Some dave) dave_bank_loan_paid_60 ''loan-uD-1'' LoanAccount Custom (Some 30)))
        (''uD'', ''loan-uD-1'')) = Some 70"
  by (simp add: payment_eval dave_bank_loan_paid_60_def)

text \<open>
  C10. A custom payment above the card's credit balance should take the whole amount from the
  cash balance and bring the card's balances down to 0. With the copy of the card in
  \<open>currentUser\<close>, which no payment refreshes, the code does otherwise. Dave pays his card in
  full (cash 1000 to 500, stored balances 0 and 0) while his session's copy still says 500
  and 450. A custom payment of 300, above the card's balance of 0, then succeeds, takes 300
  from his cash and writes a credit balance of 200 and a statement balance of 150.
\<close>

theorem makeAccountPayment_card_second_payment_raises_balance:
  "success (fst (makeAccountPayment (Some dave) dave_bank ''5678'' CardAccount Full None)) \<and>
   map_option creditBalance (card_docs dave_bank_card_paid (''uD'', ''4000123412345678'')) = Some 0 \<and>
   map_option statementBalance (card_docs dave_bank_card_paid (''uD'', ''4000123412345678'')) = Some 0 \<and>
   map_option creditBalance (find (\<lambda>c. slice_last4 (cardNumber c) = ''5678'') (cards dave)) = Some 500 \<and>
   balance_of dave_bank_card_paid ''uD'' = Some 500 \<and>
   success (fst (makeAccountPayment (Some dave) dave_bank_card_paid ''5678'' CardAccount Custom (Some 300))) \<and>
   balance_of (snd (makeAccountPayment (Some dave) dave_bank_card_paid ''5678'' CardAccount Custom (Some 300)))
     ''uD'' = Some 200 \<and>
   map_option creditBalance
     (card_docs (snd (makeAccountPayment (Some dave) dave_bank_card_paid ''5678'' CardAccount Custom (Some 300)))
        (''uD'', ''4000123412345678'')) = Some 200 \<and>
   map_option statementBalance
     (card_docs (snd (makeAccountPayment (Some dave) dave_bank_card_paid ''5678'' CardAccount Custom (Some 300)))
        (''uD'', ''4000123412345678'')) = Some 150"
  by (simp add: payment_eval dave_bank_card_paid_def)

section \<open>Properties of requestPaymentExtension\<close>

lemma stored_after_update:
  "update_paymentDueDate s ref d = Some s' \<Longrightarrow> stored_paymentDueDate s' ref = Some d"
  by (cases ref) (auto split: option.splits)

lemma MakeDate_Day_plus: "MakeDate (Day t + n) (TimeWithinDay t) = t + n * msPerDay"
  by (simp add: MakeDate_def Day_def TimeWithinDay_def algebra_simps)

text \<open>
  \<open>setDate(getDate() + n)\<close> moves the local time by \<open>n\<close> days of 24 hours; in a zone whose
  offset does not change it moves the time value by as much; across the change of
  \<open>eastern_zone\<close> it does not (14 days after 2025-03-01 12:00 UTC is 2025-03-15 11:00 UTC).
\<close>

lemma setDate_getDate_plus_local:
  "setDate_getDate_plus zone t n = UTC zone (LocalTime zone t + n * msPerDay)"
  by (simp add: setDate_getDate_plus_def Let_def MakeDate_Day_plus)

lemma setDate_getDate_plus_fixed_offset:
  "LocalTZA_of_utc zone = (\<lambda>t. c) \<Longrightarrow> LocalTZA_of_local zone = (\<lambda>t. c) \<Longrightarrow>
   setDate_getDate_plus zone t n = t + n * msPerDay"
  by (simp add: setDate_getDate_plus_local UTC_def LocalTime_def)

lemma setDate_getDate_plus_eastern:
  "setDate_getDate_plus eastern_zone 1740830400000 14 = 1742036400000 \<and>
   1740830400000 + 14 * msPerDay = 1742040000000"
  by (simp add: setDate_getDate_plus_local UTC_def LocalTime_def eastern_zone_def msPerDay_def)

text \<open>
  What a successful extension request does, in terms of the copy of the card or loan that
  \<open>currentUser\<close> holds with due date \<open>D\<close>: the due date the document holds afterwards, and the
  one returned, is \<open>D\<close> moved by 14 days of the local calendar.
\<close>

lemma requestPaymentExtension_writes:
  assumes t: "requestPaymentExtension zone currentUser random s accountId type = (Some r, s')"
    and ok: "ext_success r"
  shows "\<exists>cu docRef D.
           currentUser = Some cu \<and>
           extension_account cu accountId type = Inr (docRef, D) \<and>
           stored_paymentDueDate s' docRef = Some (setDate_getDate_plus zone D 14) \<and>
           newDueDate r = Some (setDate_getDate_plus zone D 14)"
proof -
  from t ok obtain cu docRef D where
    "currentUser = Some cu" "extension_account cu accountId type = Inr (docRef, D)"
    "update_paymentDueDate s docRef (setDate_getDate_plus zone D 14) = Some s'"
    "newDueDate r = Some (setDate_getDate_plus zone D 14)"
    unfolding requestPaymentExtension_def Let_def
    by (auto split: option.splits if_splits sum.splits prod.splits)
  then show ?thesis
    using stored_after_update by blast
qed

text \<open>
  C7. A successful extension should move the due date the account has before the call by 14
  days. The code starts from the copy of the account in \<open>currentUser\<close>, which no extension
  refreshes. Dave's card is due at 1000; his first request succeeds and the stored due date
  becomes 1000 plus 14 days. His second request in the same session succeeds too, and the
  stored due date after it is what it was before it: 1000 plus 14 days, not plus 28.
\<close>

theorem requestPaymentExtension_second_request_no_shift:
  "map_option ext_success
     (fst (requestPaymentExtension utc_zone (Some dave) (1 / 2) dave_bank ''5678'' CardAccount)) = Some True \<and>
   stored_paymentDueDate dave_bank (CardRef ''uD'' ''4000123412345678'') = Some 1000 \<and>
   stored_paymentDueDate dave_bank_extended (CardRef ''uD'' ''4000123412345678'') = Some (1000 + 14 * msPerDay) \<and>
   map_option ext_success
     (fst (requestPaymentExtension utc_zone (Some dave) (1 / 2) dave_bank_extended ''5678'' CardAccount)) = Some True \<and>
   stored_paymentDueDate
     (snd (requestPaymentExtension utc_zone (Some dave) (1 / 2) dave_bank_extended ''5678'' CardAccount))
     (CardRef ''uD'' ''4000123412345678'') = Some (1000 + 14 * msPerDay) \<and>
   1000 + 14 * msPerDay \<noteq> (1000 + 14 * msPerDay) + 14 * msPerDay"
  by (simp add: requestPaymentExtension_def extension_account_def slice_last4_def Let_def
      setDate_getDate_plus_local UTC_def LocalTime_def utc_zone_def msPerDay_def
      dave_bank_extended_def dave_def dave_doc_def dave_bank_def visa_def car_loan_def
      user_doc.extend_def User.fields_def)

section \<open>Properties of the insights cache\<close>

lemma length_filter_filter_le: "length (filter P (filter Q xs)) \<le> length (filter P xs)"
  by (induction xs) auto

text \<open>
  C9. For a logged-in user with no generation in progress, \<open>loadOrGenerateInsights\<close> returns
  the persisted document when there is one (and makes no batch call); when there is none and
  the user's savings transactions together with the transactions of their cards hold fewer
  than 3 debits, it returns nothing, makes no batch call and leaves the document absent.
\<close>

theorem loadOrGenerateInsights_cached_or_too_few:
  assumes l: "\<not> isInsightsLoading st" and cu: "currentUser = Some cu"
  shows "(\<forall>cached. insights_doc st = Some cached \<longrightarrow>
            fst (loadOrGenerateInsights generateContent zone currentUser txs now stamp st) = Some cached \<and>
            ai_requests (snd (loadOrGenerateInsights generateContent zone currentUser txs now stamp st)) = ai_requests st) \<and>
         (insights_doc st = None \<and>
          length (filter (\<lambda>tx. tx_type tx = debit)
                    (filter (\<lambda>tx. tx_uid tx = uid cu) txs @ concat (map card_transactions (cards cu)))) < 3 \<longrightarrow>
            fst (loadOrGenerateInsights generateContent zone currentUser txs now stamp st) = None \<and>
            ai_requests (snd (loadOrGenerateInsights generateContent zone currentUser txs now stamp st)) = ai_requests st \<and>
            insights_doc (snd (loadOrGenerateInsights generateContent zone currentUser txs now stamp st)) = None)"
proof (intro conjI allI impI)
  fix cached assume "insights_doc st = Some cached"
  then show "fst (loadOrGenerateInsights generateContent zone currentUser txs now stamp st) = Some cached"
    "ai_requests (snd (loadOrGenerateInsights generateContent zone currentUser txs now stamp st)) = ai_requests st"
    using l cu by (simp_all add: loadOrGenerateInsights_def)
next
  let ?all = "filter (\<lambda>tx. tx_uid tx = uid cu) txs @ concat (map card_transactions (cards cu))"
  let ?recent = "filter (\<lambda>tx. timestamp tx \<ge> setDate_getDate_plus zone now (- 60)) ?all"
  assume a: "insights_doc st = None \<and> length (filter (\<lambda>tx. tx_type tx = debit) ?all) < 3"
  have "length (filter (\<lambda>tx. tx_type tx = debit) ?recent) \<le> length (filter (\<lambda>tx. tx_type tx = debit) ?all)"
    by (rule length_filter_filter_le)
  with a have "length (filter (\<lambda>tx. tx_type tx = debit) ?recent) < 3" by simp
  then have g: "getComprehensiveInsights generateContent ?recent = (None, [])"
    by (simp add: getComprehensiveInsights_def)
  have e: "loadOrGenerateInsights generateContent zone currentUser txs now stamp st =
        (None, st\<lparr>insightsData := None, isInsightsLoading := False, ai_requests := ai_requests st @ []\<rparr>)"
    unfolding cu loadOrGenerateInsights_def option.case Let_def g using l a by simp
  show "fst (loadOrGenerateInsights generateContent zone currentUser txs now stamp st) = None"
    "ai_requests (snd (loadOrGenerateInsights generateContent zone currentUser txs now stamp st)) = ai_requests st"
    "insights_doc (snd (loadOrGenerateInsights generateContent zone currentUser txs now stamp st)) = None"
    using a by (simp_all add: e)
qed

theorem loadOrGenerateInsights_cached_or_too_few_witness:
  "\<not> isInsightsLoading with_insights \<and> \<not> isInsightsLoading no_insights \<and>
   insights_doc with_insights = Some \<lparr>data = ''analysis'', lastUpdated = 4000000000\<rparr> \<and>
   fst (loadOrGenerateInsights (\<lambda>_. Some ''fresh'') utc_zone (Some dave) dave_history 5000000300 5000000400 with_insights)
     = Some \<lparr>data = ''analysis'', lastUpdated = 4000000000\<rparr> \<and>
   insights_doc no_insights = None \<and>
   length (filter (\<lambda>tx. tx_type tx = debit)
      (filter (\<lambda>tx. tx_uid tx = uid dave) dave_history @ concat (map card_transactions (cards dave)))) = 2 \<and>
   fst (loadOrGenerateInsights (\<lambda>_. Some ''fresh'') utc_zone (Some dave) dave_history 5000000300 5000000400 no_insights)
     = None \<and>
   ai_requests (snd (loadOrGenerateInsights (\<lambda>_. Some ''fresh'') utc_zone (Some dave) dave_history 5000000300 5000000400 no_insights))
     = [] \<and>
   insights_doc (snd (loadOrGenerateInsights (\<lambda>_. Some ''fresh'') utc_zone (Some dave) dave_history 5000000300 5000000400 no_insights))
     = None"
proof -
  have l: "\<not> isInsightsLoading with_insights" "\<not> isInsightsLoading no_insights"
    by (simp_all add: with_insights_def no_insights_def)
  have c: "insights_doc with_insights = Some \<lparr>data = ''analysis'', lastUpdated = 4000000000\<rparr>"
    "insights_doc no_insights = None" "ai_requests no_insights = []"
    by (simp_all add: with_insights_def no_insights_def)
  have n: "length (filter (\<lambda>tx. tx_type tx = debit)
      (filter (\<lambda>tx. tx_uid tx = uid dave) dave_history @ concat (map card_transactions (cards dave)))) = 2"
    by (simp add: dave_history_def dave_def dave_doc_def visa_def car_loan_def
        user_doc.extend_def User.fields_def)
  from loadOrGenerateInsights_cached_or_too_few[OF l(1) refl, where generateContent = "\<lambda>_. Some ''fresh''"
        and zone = utc_zone and cu = dave and txs = dave_history and now = 5000000300 and stamp = 5000000400]
    loadOrGenerateInsights_cached_or_too_few[OF l(2) refl, where generateContent = "\<lambda>_. Some ''fresh''"
        and zone = utc_zone and cu = dave and txs = dave_history and now = 5000000300 and stamp = 5000000400]
    l c n
  show ?thesis by simp
qed

section \<open>Properties of the conversation turn\<close>

lemma stream_loop_result:
  "stream_loop items acc aid collected st = (res, st') \<Longrightarrow>
     events st' = events st @ map ChunkArrived (chunk_calls items) @ (if StreamError \<in> set items then [] else [StreamEnded]) \<and>
     res = (if StreamError \<in> set items then None else Some (collected @ concat (chunk_calls items))) \<and>
     world st' = world st"
proof (induction items acc aid collected st rule: stream_loop.induct)
  case (1 accumulatedText aiMessageId collected st)
  then show ?case by (auto simp: log_event_def)
next
  case (2 rest accumulatedText aiMessageId collected st)
  then show ?case by auto
next
  case (3 functionCalls chunkText rest accumulatedText aiMessageId collected st)
  show ?case
  proof (cases "chunkText \<noteq> []")
    case True
    with 3(1)[OF refl refl True refl refl refl refl] 3(3) show ?thesis
      by (auto simp: Let_def log_event_def add_message_def split: option.splits)
  next
    case False
    with 3(2)[OF refl refl] 3(3) show ?thesis
      by (auto simp: Let_def log_event_def)
  qed
qed

lemma dispatch_call_result:
  assumes "dispatch_call env i call st = (res, st')"
  shows "events st' = events st @ Dispatched i call #
           (case handleFunctionCall env call (world st) of (None, w') \<Rightarrow> [] | (Some x, w') \<Rightarrow> [Completed i])"
    and "world st' = snd (handleFunctionCall env call (world st))"
    and "res = map_option (\<lambda>x. \<lparr>response_name = call_name call, response = snd x\<rparr>)
                 (fst (handleFunctionCall env call (world st)))"
  using assms
  by (auto simp: dispatch_call_def Let_def log_event_def add_message_def split: prod.splits option.splits)

lemma process_call_denied:
  assumes "denied env i call" and "process_call env i call st = (res, st')"
  shows "res = Some \<lparr>response_name = call_name call,
                      response = SuccessMessage False ''User cancelled the action with their passkey.''\<rparr>"
    and "events st' = events st @ [Challenge i]"
    and "world st' = world st"
  using assms
  by (auto simp: process_call_def denied_def isVerified_def Let_def log_event_def add_message_def
        split: prod.splits)

lemma process_call_allowed:
  assumes "\<not> denied env i call" and "process_call env i call st = (res, st')"
  shows "events st' = events st @ (if array_includes sensitiveActions (call_name call) then [Challenge i] else []) @
           Dispatched i call #
           (case handleFunctionCall env call (world st) of (None, w') \<Rightarrow> [] | (Some x, w') \<Rightarrow> [Completed i])"
    and "world st' = snd (handleFunctionCall env call (world st))"
    and "res = map_option (\<lambda>x. \<lparr>response_name = call_name call, response = snd x\<rparr>)
                 (fst (handleFunctionCall env call (world st)))"
proof -
  show "events st' = events st @ (if array_includes sensitiveActions (call_name call) then [Challenge i] else []) @
           Dispatched i call #
           (case handleFunctionCall env call (world st) of (None, w') \<Rightarrow> [] | (Some x, w') \<Rightarrow> [Completed i])"
  proof (cases "array_includes sensitiveActions (call_name call)")
    case True
    with assms obtain st2 where d: "dispatch_call env i call st2 = (res, st')"
      and e: "events st2 = events st @ [Challenge i]" and w: "world st2 = world st"
      by (auto simp: process_call_def denied_def isVerified_def Let_def log_event_def add_message_def
          split: prod.splits)
    from dispatch_call_result(1)[OF d] e w True show ?thesis by simp
  next
    case False
    with assms have d: "dispatch_call env i call st = (res, st')"
      by (simp add: process_call_def)
    from dispatch_call_result(1)[OF d] False show ?thesis by simp
  qed
  show "world st' = snd (handleFunctionCall env call (world st))"
  proof (cases "array_includes sensitiveActions (call_name call)")
    case True
    with assms obtain st2 where d: "dispatch_call env i call st2 = (res, st')"
      and w: "world st2 = world st"
      by (auto simp: process_call_def denied_def isVerified_def Let_def log_event_def add_message_def
          split: prod.splits)
    from dispatch_call_result(2)[OF d] w show ?thesis by simp
  next
    case False
    with assms have d: "dispatch_call env i call st = (res, st')"
      by (simp add: process_call_def)
    from dispatch_call_result(2)[OF d] show ?thesis by simp
  qed
  show "res = map_option (\<lambda>x. \<lparr>response_name = call_name call, response = snd x\<rparr>)
                 (fst (handleFunctionCall env call (world st)))"
  proof (cases "array_includes sensitiveActions (call_name call)")
    case True
    with assms obtain st2 where d: "dispatch_call env i call st2 = (res, st')"
      and w: "world st2 = world st"
      by (auto simp: process_call_def denied_def isVerified_def Let_def log_event_def add_message_def
          split: prod.splits)
    from dispatch_call_result(3)[OF d] w show ?thesis by simp
  next
    case False
    with assms have d: "dispatch_call env i call st = (res, st')"
      by (simp add: process_call_def)
    from dispatch_call_result(3)[OF d] show ?thesis by simp
  qed
qed

lemma process_calls_events:
  "process_calls env i cs parts st = (res, st') \<Longrightarrow>
     events st' = events st @ calls_events env i cs (world st)"
proof (induction cs arbitrary: i parts st)
  case Nil
  then show ?case by simp
next
  case (Cons c cs)
  obtain r1 st1 where p: "process_call env i c st = (r1, st1)" by (rule prod.exhaust)
  show ?case
  proof (cases "denied env i c")
    case True
    note d = process_call_denied[OF True p]
    from Cons.prems p d(1) have "process_calls env (Suc i) cs
        (parts @ [\<lparr>response_name = call_name c,
                   response = SuccessMessage False ''User cancelled the action with their passkey.''\<rparr>]) st1 = (res, st')"
      by simp
    from Cons.IH[OF this] d True show ?thesis by (simp add: denied_def)
  next
    case False
    note a = process_call_allowed[OF False p]
    show ?thesis
    proof (cases "handleFunctionCall env c (world st)")
      case (Pair h w')
      show ?thesis
      proof (cases h)
        case None
        with a Pair Cons.prems p False show ?thesis by simp
      next
        case (Some x)
        with a(3) Pair have r1: "r1 = Some \<lparr>response_name = call_name c, response = snd x\<rparr>" by simp
        from Cons.prems p r1 have "process_calls env (Suc i) cs
          (parts @ [\<lparr>response_name = call_name c, response = snd x\<rparr>]) st1 = (res, st')"
          by simp
        from Cons.IH[OF this] a(1,2) Pair Some False show ?thesis by simp
      qed
    qed
  qed
qed

lemma process_calls_parts:
  "process_calls env i cs parts st = (Some ps, st') \<Longrightarrow>
     length ps = length parts + length cs \<and> take (length parts) ps = parts \<and>
     (\<forall>j<length cs. denied env (i + j) (cs ! j) \<longrightarrow>
        ps ! (length parts + j) = \<lparr>response_name = call_name (cs ! j),
           response = SuccessMessage False ''User cancelled the action with their passkey.''\<rparr>)"
proof (induction cs arbitrary: i parts st)
  case Nil
  then show ?case by simp
next
  case (Cons c cs)
  obtain r1 st1 where p: "process_call env i c st = (r1, st1)" by (rule prod.exhaust)
  with Cons.prems obtain part where r1: "r1 = Some part"
    and rest: "process_calls env (Suc i) cs (parts @ [part]) st1 = (Some ps, st')"
    by (cases r1) auto
  note ih = Cons.IH[OF rest]
  from ih have len: "length ps = length parts + length (c # cs)" by simp
  from ih have t1: "take (Suc (length parts)) ps = parts @ [part]" by simp
  have "take (length parts) ps = take (length parts) (take (Suc (length parts)) ps)" by simp
  also have "\<dots> = take (length parts) (parts @ [part])" by (simp only: t1)
  also have "\<dots> = parts" by simp
  finally have tk: "take (length parts) ps = parts" .
  have "ps ! length parts = take (Suc (length parts)) ps ! length parts" by simp
  also have "\<dots> = (parts @ [part]) ! length parts" by (simp only: t1)
  also have "\<dots> = part" by simp
  finally have hd: "ps ! length parts = part" .
  have "\<forall>j<length (c # cs). denied env (i + j) ((c # cs) ! j) \<longrightarrow>
        ps ! (length parts + j) = \<lparr>response_name = call_name ((c # cs) ! j),
           response = SuccessMessage False ''User cancelled the action with their passkey.''\<rparr>"
  proof (intro allI impI)
    fix j assume j: "j < length (c # cs)" and d: "denied env (i + j) ((c # cs) ! j)"
    show "ps ! (length parts + j) = \<lparr>response_name = call_name ((c # cs) ! j),
           response = SuccessMessage False ''User cancelled the action with their passkey.''\<rparr>"
    proof (cases j)
      case 0
      with d have "denied env i c" by simp
      from process_call_denied(1)[OF this p] r1 hd 0 show ?thesis by simp
    next
      case (Suc k)
      with j d ih show ?thesis by simp
    qed
  qed
  with len tk show ?case by blast
qed

lemma process_calls_total:
  "(\<And>c w. fst (handleFunctionCall env c w) \<noteq> None) \<Longrightarrow> fst (process_calls env i cs parts st) \<noteq> None"
proof (induction cs arbitrary: i parts st)
  case Nil
  then show ?case by simp
next
  case (Cons c cs)
  obtain r1 st1 where p: "process_call env i c st = (r1, st1)" by (rule prod.exhaust)
  have "r1 \<noteq> None"
  proof (cases "denied env i c")
    case True
    from process_call_denied(1)[OF True p] show ?thesis by simp
  next
    case False
    from process_call_allowed(3)[OF False p] Cons.prems[of c "world st"] show ?thesis by simp
  qed
  then obtain part where "r1 = Some part" by auto
  with p Cons.IH[OF Cons.prems, of "Suc i" "parts @ [part]" st1] show ?case by simp
qed

lemma calls_events_Dispatched:
  "Dispatched j c \<in> set (calls_events env i cs w) \<Longrightarrow>
     i \<le> j \<and> j < i + length cs \<and> c = cs ! (j - i) \<and> \<not> denied env j c"
proof (induction cs arbitrary: i w)
  case Nil
  then show ?case by simp
next
  case (Cons a cs)
  from Cons.prems consider
    (head) "j = i" "c = a" "\<not> denied env i a"
    | (tail) w' where "Dispatched j c \<in> set (calls_events env (Suc i) cs w')"
    by (auto split: if_splits prod.splits option.splits)
  then show ?case
  proof cases
    case head
    then show ?thesis by simp
  next
    case tail
    from Cons.IH[OF tail] show ?thesis by (auto simp: nth_Cons')
  qed
qed

lemma calls_events_no_stream:
  "StreamOpened m \<notin> set (calls_events env i cs w)"
  by (induction cs arbitrary: i w) (auto split: if_splits prod.splits option.splits)

lemma calls_events_first:
  "cs \<noteq> [] \<Longrightarrow> Challenge i \<in> set (calls_events env i cs w) \<or> Dispatched i (hd cs) \<in> set (calls_events env i cs w)"
  by (cases cs) (auto simp: denied_def split: if_splits prod.splits option.splits)

lemma calls_events_continue:
  "j < length cs \<Longrightarrow> denied env (i + j) (cs ! j) \<Longrightarrow> Challenge (i + j) \<in> set (calls_events env i cs w) \<Longrightarrow>
   Suc j < length cs \<Longrightarrow>
     Challenge (i + Suc j) \<in> set (calls_events env i cs w) \<or>
     Dispatched (i + Suc j) (cs ! Suc j) \<in> set (calls_events env i cs w)"
proof (induction cs arbitrary: i j w)
  case Nil
  then show ?case by simp
next
  case (Cons a cs)
  show ?case
  proof (cases j)
    case 0
    with Cons.prems have d: "denied env i a" and ne: "cs \<noteq> []" by auto
    from calls_events_first[OF ne, where env = env and i = "Suc i" and w = w] d ne show ?thesis
      by (cases cs) (auto simp: 0 denied_def)
  next
    case (Suc k)
    with Cons.prems have k: "k < length cs" "denied env (Suc i + k) (cs ! k)" "Suc k < length cs"
      by auto
    from Cons.prems(3) Suc obtain w' where
      t: "Challenge (Suc i + k) \<in> set (calls_events env (Suc i) cs w')"
      and sub: "set (calls_events env (Suc i) cs w') \<subseteq> set (calls_events env i (a # cs) w)"
      by (auto split: if_splits prod.splits option.splits)
    from Cons.IH[OF k(1,2) t k(3)] sub Suc show ?thesis
      by (auto simp del: calls_events.simps)
  qed
qed





lemma calls_events_reaches:
  "(\<And>c w. fst (handleFunctionCall env c w) \<noteq> None) \<Longrightarrow> j < length cs \<Longrightarrow>
   array_includes sensitiveActions (call_name (cs ! j)) \<Longrightarrow>
     Challenge (i + j) \<in> set (calls_events env i cs w)"
proof (induction cs arbitrary: i j w)
  case Nil
  then show ?case by simp
next
  case (Cons a cs)
  show ?case
  proof (cases j)
    case 0
    with Cons.prems show ?thesis by simp
  next
    case (Suc k)
    with Cons.prems have k: "k < length cs" "array_includes sensitiveActions (call_name (cs ! k))"
      by auto
    note ih = Cons.IH[OF Cons.prems(1) k, of "Suc i"]
    obtain h w' where hw: "handleFunctionCall env a w = (h, w')" by (rule prod.exhaust)
    with Cons.prems(1)[of a w] obtain x where h: "h = Some x" by auto
    from ih[of w] ih[of w'] hw h Suc show ?thesis by simp
  qed
qed




lemma streamAndHandle_result:
  assumes "streamAndHandle env m st = (res, st')"
  shows "events st' = events st @ StreamOpened m # map ChunkArrived (chunk_calls (sendMessageStream env m)) @
           (if StreamError \<in> set (sendMessageStream env m) then [] else [StreamEnded])"
    and "res = (if StreamError \<in> set (sendMessageStream env m) then None
                else Some (concat (chunk_calls (sendMessageStream env m))))"
    and "world st' = world st"
  using stream_loop_result[OF assms[unfolded streamAndHandle_def]]
  by (simp_all add: log_event_def)

lemma events_catch_finally: "events (catch_finally st) = events st"
  by (simp add: catch_finally_def add_message_def)

lemma handleSend_events:
  assumes g: "\<not> blank prompt" "\<not> isLoading st" "hasCurrentUser env" "hasChat env"
    and items: "items = sendMessageStream env (Prompt prompt)"
    and calls: "calls = concat (chunk_calls items)"
  shows "\<exists>tail. events (handleSend env prompt st) =
            events st @ StreamOpened (Prompt prompt) # map ChunkArrived (chunk_calls items) @ tail \<and>
          (StreamError \<in> set items \<and> tail = []
           \<or> StreamError \<notin> set items \<and> calls = [] \<and> tail = [StreamEnded]
           \<or> StreamError \<notin> set items \<and> calls \<noteq> [] \<and>
              (\<exists>st2. world st2 = world st \<and> fst (process_calls env 0 calls [] st2) = None \<and>
                 tail = StreamEnded # calls_events env 0 calls (world st))
           \<or> StreamError \<notin> set items \<and> calls \<noteq> [] \<and>
              (\<exists>st2 parts. world st2 = world st \<and> fst (process_calls env 0 calls [] st2) = Some parts \<and>
                 tail = StreamEnded # calls_events env 0 calls (world st) @
                   StreamOpened (FunctionResponses parts) #
                   map ChunkArrived (chunk_calls (sendMessageStream env (FunctionResponses parts))) @
                   (if StreamError \<in> set (sendMessageStream env (FunctionResponses parts)) then []
                    else [StreamEnded])))"
proof -
  let ?st1 = "(add_message SenderUser (Plain prompt) st)\<lparr>isLoading := True\<rparr>"
  have e1: "events ?st1 = events st" and w1: "world ?st1 = world st"
    by (simp_all add: add_message_def)
  obtain r1 st2 where s1: "streamAndHandle env (Prompt prompt) ?st1 = (r1, st2)" by (rule prod.exhaust)
  note f1 = streamAndHandle_result[OF s1, folded items, folded calls]
  have hs: "handleSend env prompt st =
      (case (r1, st2) of
         (None, st2) \<Rightarrow> catch_finally st2
       | (Some functionCalls, st2) \<Rightarrow>
           if length functionCalls > 0
           then
             (case process_calls env 0 functionCalls [] st2 of
                (None, st3) \<Rightarrow> catch_finally st3
              | (Some functionResponseParts, st3) \<Rightarrow>
                  (case streamAndHandle env (FunctionResponses functionResponseParts) st3 of
                     (None, st4) \<Rightarrow> catch_finally st4
                   | (Some _, st4) \<Rightarrow> st4\<lparr>isLoading := False\<rparr>))
           else st2\<lparr>isLoading := False\<rparr>)"
    using g by (simp add: handleSend_def Let_def s1)
  show ?thesis
  proof (cases "StreamError \<in> set items")
    case True
    with f1 hs e1 show ?thesis by (simp add: events_catch_finally)
  next
    case ok: False
    with f1 have r1: "r1 = Some calls" by simp
    show ?thesis
    proof (cases "calls = []")
      case True
      with f1 hs e1 ok r1 show ?thesis by simp
    next
      case ne: False
      obtain r2 st3 where p: "process_calls env 0 calls [] st2 = (r2, st3)" by (rule prod.exhaust)
      from process_calls_events[OF p] f1 w1 e1 ok
      have e3: "events st3 = events st @ StreamOpened (Prompt prompt) # map ChunkArrived (chunk_calls items) @
                  StreamEnded # calls_events env 0 calls (world st)"
        by simp
      show ?thesis
      proof (cases r2)
        case None
        with hs r1 ne p have "handleSend env prompt st = catch_finally st3" by simp
        with e3 have "events (handleSend env prompt st) =
            events st @ StreamOpened (Prompt prompt) # map ChunkArrived (chunk_calls items) @
              StreamEnded # calls_events env 0 calls (world st)"
          by (simp add: events_catch_finally)
        moreover from p None have "fst (process_calls env 0 calls [] st2) = None" by simp
        moreover from f1(3) w1 have "world st2 = world st" by simp
        ultimately show ?thesis using ok ne by blast
      next
        case (Some parts)
        obtain r3 st4 where s2: "streamAndHandle env (FunctionResponses parts) st3 = (r3, st4)"
          by (rule prod.exhaust)
        note f2 = streamAndHandle_result[OF s2]
        from hs r1 ne p Some s2 have "events (handleSend env prompt st) = events st4"
          by (cases r3) (simp_all add: events_catch_finally)
        with f2(1) e3 have "events (handleSend env prompt st) =
            events st @ StreamOpened (Prompt prompt) # map ChunkArrived (chunk_calls items) @
              StreamEnded # calls_events env 0 calls (world st) @
                   StreamOpened (FunctionResponses parts) #
                   map ChunkArrived (chunk_calls (sendMessageStream env (FunctionResponses parts))) @
                   (if StreamError \<in> set (sendMessageStream env (FunctionResponses parts)) then []
                    else [StreamEnded])"
          by simp
        moreover from p Some have "fst (process_calls env 0 calls [] st2) = Some parts" by simp
        moreover from f1(3) w1 have "world st2 = world st" by simp
        ultimately show ?thesis using ok ne by blast
      qed
    qed
  qed
qed





lemmas demo_eval =
  demo_env_def demo_turn_def balance_call_def payment_call_def extension_call_def
  blank_def isVerified_def verifyCurrentUserWithPasskey_def array_includes_def
  sensitiveActions_def denied_def

text \<open>
  C1. In a turn that \<open>handleSend\<close> runs, let the call at position \<open>i\<close> of the collected calls have
  a sensitive name and let the gate return false for it. Then \<open>handleFunctionCall\<close>, through
  which alone an account operation is reached, is never called for position \<open>i\<close>; whenever the
  responses are sent back to the model there is one response per collected call, and the one
  at position \<open>i\<close> is the object with \<open>success\<close> false and the cancellation message; once the
  gate has been asked for call \<open>i\<close> the loop goes on to call \<open>i + 1\<close> (its challenge or its
  execution follows); and if the stream does not fail and no handler throws, the loop does
  reach call \<open>i\<close> and the responses are sent.
\<close>

theorem handleSend_denied_call_cancelled:
  assumes g: "\<not> blank prompt" "\<not> isLoading st" "hasCurrentUser env" "hasChat env"
    and calls: "calls = concat (chunk_calls (sendMessageStream env (Prompt prompt)))"
    and new: "new = drop (length (events st)) (events (handleSend env prompt st))"
    and i: "i < length calls"
    and sens: "array_includes sensitiveActions (call_name (calls ! i))"
    and den: "\<not> isVerified env i"
  shows "(\<forall>c. Dispatched i c \<notin> set new) \<and>
         (\<forall>parts. StreamOpened (FunctionResponses parts) \<in> set new \<longrightarrow>
            length parts = length calls \<and>
            parts ! i = \<lparr>response_name = call_name (calls ! i),
                          response = SuccessMessage False ''User cancelled the action with their passkey.''\<rparr>) \<and>
         (Challenge i \<in> set new \<and> Suc i < length calls \<longrightarrow>
            Challenge (Suc i) \<in> set new \<or> Dispatched (Suc i) (calls ! Suc i) \<in> set new) \<and>
         (StreamError \<notin> set (sendMessageStream env (Prompt prompt)) \<and>
          (\<forall>c w. fst (handleFunctionCall env c w) \<noteq> None) \<longrightarrow>
            Challenge i \<in> set new \<and> (\<exists>parts. StreamOpened (FunctionResponses parts) \<in> set new))"
proof -
  let ?items = "sendMessageStream env (Prompt prompt)"
  let ?CE = "calls_events env 0 calls (world st)"
  have d: "denied env i (calls ! i)" using sens den by (simp add: denied_def)
  have ne: "calls \<noteq> []" using i by auto
  from handleSend_events[OF g refl calls] obtain tail where
    ev: "events (handleSend env prompt st) =
           events st @ StreamOpened (Prompt prompt) # map ChunkArrived (chunk_calls ?items) @ tail"
    and cs: "StreamError \<in> set ?items \<and> tail = []
           \<or> StreamError \<notin> set ?items \<and> calls = [] \<and> tail = [StreamEnded]
           \<or> StreamError \<notin> set ?items \<and> calls \<noteq> [] \<and>
              (\<exists>st2. world st2 = world st \<and> fst (process_calls env 0 calls [] st2) = None \<and>
                 tail = StreamEnded # ?CE)
           \<or> StreamError \<notin> set ?items \<and> calls \<noteq> [] \<and>
              (\<exists>st2 parts. world st2 = world st \<and> fst (process_calls env 0 calls [] st2) = Some parts \<and>
                 tail = StreamEnded # ?CE @
                   StreamOpened (FunctionResponses parts) #
                   map ChunkArrived (chunk_calls (sendMessageStream env (FunctionResponses parts))) @
                   (if StreamError \<in> set (sendMessageStream env (FunctionResponses parts)) then []
                    else [StreamEnded]))"
    by blast
  from ev new have n: "new = StreamOpened (Prompt prompt) # map ChunkArrived (chunk_calls ?items) @ tail"
    by simp
  have noD: "\<And>c. Dispatched i c \<notin> set ?CE"
  proof
    fix c assume "Dispatched i c \<in> set ?CE"
    from calls_events_Dispatched[OF this] d show False by auto
  qed
  have sub: "set tail \<subseteq> set new" using n by auto
  have tailD: "Dispatched j c \<in> set tail \<Longrightarrow> Dispatched j c \<in> set ?CE" for j c
    using cs by (auto split: if_splits)
  have tailC: "Challenge j \<in> set tail \<longleftrightarrow> Challenge j \<in> set ?CE \<and> StreamError \<notin> set ?items" for j
    using cs ne by (auto split: if_splits)
  have newD: "Dispatched j c \<in> set new \<longleftrightarrow> Dispatched j c \<in> set tail" for j c
    using n by auto
  have newC: "Challenge j \<in> set new \<longleftrightarrow> Challenge j \<in> set tail" for j
    using n by auto
  have c1: "\<forall>c. Dispatched i c \<notin> set new"
    using newD tailD noD by blast
  have c2: "\<forall>parts. StreamOpened (FunctionResponses parts) \<in> set new \<longrightarrow>
            length parts = length calls \<and>
            parts ! i = \<lparr>response_name = call_name (calls ! i),
                          response = SuccessMessage False ''User cancelled the action with their passkey.''\<rparr>"
  proof (intro allI impI)
    fix parts assume a: "StreamOpened (FunctionResponses parts) \<in> set new"
    with n have "StreamOpened (FunctionResponses parts) \<in> set tail" by auto
    with cs calls_events_no_stream[of "FunctionResponses parts" env 0 calls "world st"]
    obtain st2 where "fst (process_calls env 0 calls [] st2) = Some parts"
      by (auto split: if_splits)
    then obtain st3 where "process_calls env 0 calls [] st2 = (Some parts, st3)"
      by (cases "process_calls env 0 calls [] st2") auto
    from process_calls_parts[OF this] i d
    show "length parts = length calls \<and>
            parts ! i = \<lparr>response_name = call_name (calls ! i),
                          response = SuccessMessage False ''User cancelled the action with their passkey.''\<rparr>"
      by simp
  qed
  have c3: "Challenge i \<in> set new \<and> Suc i < length calls \<longrightarrow>
            Challenge (Suc i) \<in> set new \<or> Dispatched (Suc i) (calls ! Suc i) \<in> set new"
  proof
    assume a: "Challenge i \<in> set new \<and> Suc i < length calls"
    with newC tailC have ce: "Challenge (0 + i) \<in> set ?CE" and ok: "StreamError \<notin> set ?items" by auto
    from d have d0: "denied env (0 + i) (calls ! i)" by simp
    from calls_events_continue[OF i d0 ce] a
    have "Challenge (Suc i) \<in> set ?CE \<or> Dispatched (Suc i) (calls ! Suc i) \<in> set ?CE" by simp
    moreover have "set ?CE \<subseteq> set tail" using cs ok ne by auto
    ultimately show "Challenge (Suc i) \<in> set new \<or> Dispatched (Suc i) (calls ! Suc i) \<in> set new"
      using sub by blast
  qed
  have c4: "StreamError \<notin> set ?items \<and> (\<forall>c w. fst (handleFunctionCall env c w) \<noteq> None) \<longrightarrow>
            Challenge i \<in> set new \<and> (\<exists>parts. StreamOpened (FunctionResponses parts) \<in> set new)"
  proof
    assume a: "StreamError \<notin> set ?items \<and> (\<forall>c w. fst (handleFunctionCall env c w) \<noteq> None)"
    then have tot: "\<And>c w. fst (handleFunctionCall env c w) \<noteq> None" by blast
    from calls_events_reaches[OF tot i sens, of 0 "world st"] have "Challenge i \<in> set ?CE" by simp
    with tailC newC a have r: "Challenge i \<in> set new" by blast
    from cs a ne consider
      (fail) st2 where "fst (process_calls env 0 calls [] st2) = None"
      | (sent) parts where "tail = StreamEnded # ?CE @
                   StreamOpened (FunctionResponses parts) #
                   map ChunkArrived (chunk_calls (sendMessageStream env (FunctionResponses parts))) @
                   (if StreamError \<in> set (sendMessageStream env (FunctionResponses parts)) then []
                    else [StreamEnded])"
      by blast
    then obtain parts where "StreamOpened (FunctionResponses parts) \<in> set tail"
    proof cases
      case fail
      with process_calls_total[OF tot, of 0 calls "[]" st2] show ?thesis by simp
    next
      case sent
      then have "StreamOpened (FunctionResponses parts) \<in> set tail" by simp
      then show ?thesis by (rule that)
    qed
    with sub r show "Challenge i \<in> set new \<and> (\<exists>parts. StreamOpened (FunctionResponses parts) \<in> set new)"
      by blast
  qed
  from c1 c2 c3 c4 show ?thesis by blast
qed

theorem handleSend_denied_call_cancelled_witness:
  "\<not> blank ''pay bob'' \<and> \<not> isLoading demo_turn \<and> hasCurrentUser demo_env \<and> hasChat demo_env \<and>
   concat (chunk_calls (sendMessageStream demo_env (Prompt ''pay bob'')))
     = [balance_call, payment_call, extension_call] \<and>
   array_includes sensitiveActions (call_name payment_call) \<and>
   \<not> isVerified demo_env 1 \<and>
   (\<forall>c. Dispatched 1 c \<notin> set (events (handleSend demo_env ''pay bob'' demo_turn))) \<and>
   (\<exists>parts. StreamOpened (FunctionResponses parts) \<in> set (events (handleSend demo_env ''pay bob'' demo_turn)) \<and>
      length parts = 3 \<and>
      parts ! 1 = \<lparr>response_name = Some ''initiatePayment'',
                     response = SuccessMessage False ''User cancelled the action with their passkey.''\<rparr>) \<and>
   Challenge 1 \<in> set (events (handleSend demo_env ''pay bob'' demo_turn)) \<and>
   (Challenge 2 \<in> set (events (handleSend demo_env ''pay bob'' demo_turn)) \<or>
    Dispatched 2 extension_call \<in> set (events (handleSend demo_env ''pay bob'' demo_turn)))"
proof -
  let ?new = "drop (length (events demo_turn)) (events (handleSend demo_env ''pay bob'' demo_turn))"
  have n: "?new = events (handleSend demo_env ''pay bob'' demo_turn)"
    by (simp add: demo_turn_def)
  have g: "\<not> blank ''pay bob''" "\<not> isLoading demo_turn" "hasCurrentUser demo_env" "hasChat demo_env"
    by (simp_all add: demo_eval)
  have c: "[balance_call, payment_call, extension_call]
      = concat (chunk_calls (sendMessageStream demo_env (Prompt ''pay bob'')))"
    by (simp add: demo_env_def)
  have i: "1 < length [balance_call, payment_call, extension_call]" by simp
  have s: "array_includes sensitiveActions (call_name ([balance_call, payment_call, extension_call] ! 1))"
    by (simp add: demo_eval)
  have d: "\<not> isVerified demo_env 1" by (simp add: demo_eval)
  have ok: "StreamError \<notin> set (sendMessageStream demo_env (Prompt ''pay bob''))"
    "\<forall>c w. fst (handleFunctionCall demo_env c w) \<noteq> None"
    by (simp_all add: demo_env_def)
  have k: "call_name payment_call = Some ''initiatePayment''"
    "array_includes sensitiveActions (call_name payment_call)"
    by (simp_all add: demo_eval)
  note t = handleSend_denied_call_cancelled[OF g c refl i s d]
  from t have c1: "\<forall>c. Dispatched 1 c \<notin> set ?new" by blast
  from t ok have c4: "Challenge 1 \<in> set ?new" by blast
  from t ok obtain parts where p: "StreamOpened (FunctionResponses parts) \<in> set ?new" by blast
  from t p have "length parts = length [balance_call, payment_call, extension_call] \<and>
      parts ! 1 = \<lparr>response_name = call_name ([balance_call, payment_call, extension_call] ! 1),
                     response = SuccessMessage False ''User cancelled the action with their passkey.''\<rparr>"
    by blast
  then have "length parts = 3 \<and>
      parts ! 1 = \<lparr>response_name = Some ''initiatePayment'',
                     response = SuccessMessage False ''User cancelled the action with their passkey.''\<rparr>"
    by (simp add: k)
  with p have c2: "\<exists>parts. StreamOpened (FunctionResponses parts) \<in> set ?new \<and> length parts = 3 \<and>
           parts ! 1 = \<lparr>response_name = Some ''initiatePayment'',
                     response = SuccessMessage False ''User cancelled the action with their passkey.''\<rparr>"
    by blast
  have "Suc 1 < length [balance_call, payment_call, extension_call]" by simp
  with t c4 have "Challenge (Suc 1) \<in> set ?new \<or>
      Dispatched (Suc 1) ([balance_call, payment_call, extension_call] ! Suc 1) \<in> set ?new"
    by blast
  then have c3: "Challenge 2 \<in> set ?new \<or> Dispatched 2 extension_call \<in> set ?new"
    by (simp add: numeral_2_eq_2)
  note c1 c2 c4 c3
  with g c d k show ?thesis unfolding n by simp
qed



end
